theory Spec2Isabelle
  imports Complex_Main "HOL-Library.Word" "HOL-Library.Multiset"
begin

section \<open>Data model\<close>

text \<open>
  Go's \<open>int64\<close> is a 64-bit word read as two's complement (\<open>sint\<close>); \<open>+\<close> wraps
  as Go's does. Go's \<open>int\<close> is taken at its width on 64-bit platforms, so it is a
  64-bit word as well. A \<open>time.Time\<close> is an instant, counted from the zero value of
  the type; \<open>Before\<close> and \<open>After\<close> compare instants.
\<close>

type_synonym int64 = "64 word"
type_synonym goint = "64 word"
type_synonym Time = int

text \<open>
  What a run ends in when it does not return a value: a panic of the runtime on an
  index out of range, or a loop that never exits.
\<close>

datatype error = IndexOutOfRange | NonTermination

record Device =
  Name :: string
  Platform :: string
  Version :: string
  LowestProtocol :: goint
  HighestProtocol :: goint
  SuiteIds :: "goint list"
  SuiteNames :: "string list"
  EllipticCurves :: "goint list"

record Browser =
  Date :: Time
  BrowserFamily :: string
  BrowserMajorVersion :: string
  OSFamily :: string
  OSMajorVersion :: string
  Count :: int64

text \<open>
  The version tables \<open>chromeVers\<close>, ..., \<open>ieVers\<close> are package variables declared in
  a file that is not among the sources; they are a parameter of the model.
\<close>

record VersionTables =
  chromeVers :: "string \<rightharpoonup> string"
  firefoxVers :: "string \<rightharpoonup> string"
  androidVers :: "string \<rightharpoonup> string"
  safariVers :: "string \<rightharpoonup> string"
  operaVers :: "string \<rightharpoonup> string"
  edgeVers :: "string \<rightharpoonup> string"
  ieVers :: "string \<rightharpoonup> string"

section \<open>Key normalizer\<close>

definition dedupFamily :: "string \<Rightarrow> string" where
  "dedupFamily browser =
     (if browser = ''Chrome Mobile'' then ''Chrome''
      else if browser = ''Chrome Mobile WebView'' then ''Chrome''
      else if browser = ''Chrome Mobile iOS'' then ''Chrome''
      else if browser = ''Chromium'' then ''Chrome''
      else if browser = ''Firefox Mobile'' then ''Firefox''
      else if browser = ''Thunderbird'' then ''Firefox''
      else if browser = ''Firefox iOS'' then ''Firefox''
      else if browser = ''Opera Mini'' then ''Opera''
      else if browser = ''Opera Mobile'' then ''Opera''
      else if browser = ''Mobile Safari'' then ''Safari''
      else if browser = ''Mobile Safari UIWebView'' then ''Safari''
      else if browser = ''Mobile Safari UI/WKWebView'' then ''Safari''
      else if browser = ''Samsung Internet'' then ''Android''
      else if browser = ''IE Mobile'' then ''IE''
      else if browser = ''Edge Mobile'' then ''Edge''
      else browser)"

text \<open>\<open>strings.Split(s, sep)\<close> for a separator of one character.\<close>

fun strings_Split :: "string \<Rightarrow> char \<Rightarrow> string list" where
  "strings_Split [] sep = [[]]"
| "strings_Split (c # cs) sep =
     (if c = sep then [] # strings_Split cs sep
      else (case strings_Split cs sep of
              [] \<Rightarrow> [[c]]
            | w # ws \<Rightarrow> (c # w) # ws))"

text \<open>\<open>fmt.Sprintf("%s:%s", a, b)\<close>.\<close>

definition sprintf_colon :: "string \<Rightarrow> string \<Rightarrow> string" where
  "sprintf_colon a b = a @ '':'' @ b"

text \<open>
  What each case of the \<open>switch\<close> of \<open>collapseVersion\<close> does with the table of its
  family: the family with the new version when the table has the version, else the
  key as it came.
\<close>

definition lookupVers :: "(string \<rightharpoonup> string) \<Rightarrow> string \<Rightarrow> string \<Rightarrow> string \<Rightarrow> string" where
  "lookupVers tbl fam ver browser =
     (case tbl ver of Some nv \<Rightarrow> sprintf_colon fam nv | None \<Rightarrow> browser)"

definition collapseVersion :: "VersionTables \<Rightarrow> string \<Rightarrow> string" where
  "collapseVersion vt browser =
     (case strings_Split browser CHR '':'' of
        [fam, ver] \<Rightarrow>
          (if fam = ''Chrome'' then lookupVers (chromeVers vt) fam ver browser
           else if fam = ''Firefox'' then lookupVers (firefoxVers vt) fam ver browser
           else if fam = ''Android'' then lookupVers (androidVers vt) fam ver browser
           else if fam = ''Safari'' then lookupVers (safariVers vt) fam ver browser
           else if fam = ''Opera'' then lookupVers (operaVers vt) fam ver browser
           else if fam = ''Edge'' then lookupVers (edgeVers vt) fam ver browser
           else if fam = ''IE'' then lookupVers (ieVers vt) fam ver browser
           else browser)
      | _ \<Rightarrow> browser)"

definition browserKey :: "VersionTables \<Rightarrow> Browser \<Rightarrow> string" where
  "browserKey vt browser =
     collapseVersion vt
       (sprintf_colon (dedupFamily (BrowserFamily browser)) (BrowserMajorVersion browser))"

definition deviceKey :: "Device \<Rightarrow> string" where
  "deviceKey device = sprintf_colon (Name device) (Version device)"

section \<open>Join and aggregation\<close>

text \<open>
  The local variables of the join loop of \<open>analyseStats\<close>. The diagnostic map that the
  source calls \<open>m\<close> is the field \<open>unmatched\<close>.
\<close>

record JoinState =
  found :: goint
  notfound :: goint
  unmatched :: "string \<rightharpoonup> goint"
  browserMap :: "string \<rightharpoonup> int64"

text \<open>The set \<open>deviceKeys\<close> that \<open>analyseStats\<close> builds from the devices.\<close>

definition deviceKeySet :: "Device list \<Rightarrow> (string \<rightharpoonup> bool)" where
  "deviceKeySet devs = foldl (\<lambda>deviceKeys d. deviceKeys(deviceKey d \<mapsto> True)) Map.empty devs"

definition joinStep :: "VersionTables \<Rightarrow> (string \<rightharpoonup> bool) \<Rightarrow> JoinState \<Rightarrow> Browser \<Rightarrow> JoinState" where
  "joinStep vt deviceKeys s b =
     (let key = browserKey vt b in
      case deviceKeys key of
        Some _ \<Rightarrow>
          s\<lparr>found := found s + 1,
            browserMap := (browserMap s)(key \<mapsto>
              (case browserMap s key of Some n \<Rightarrow> n + Count b | None \<Rightarrow> Count b))\<rparr>
      | None \<Rightarrow>
          s\<lparr>notfound := notfound s + 1,
            unmatched := (unmatched s)(key \<mapsto>
              (case unmatched s key of Some n \<Rightarrow> n + 1 | None \<Rightarrow> 1))\<rparr>)"

definition joinLoop :: "VersionTables \<Rightarrow> Browser list \<Rightarrow> Device list \<Rightarrow> JoinState" where
  "joinLoop vt browsers devs =
     foldl (joinStep vt (deviceKeySet devs))
       \<lparr>found = 0, notfound = 0, unmatched = Map.empty, browserMap = Map.empty\<rparr> browsers"

text \<open>
  Go leaves the order in which \<open>range\<close> visits a map unspecified. A loop over a map is
  modelled as a loop over the list of the entries in the order the run visits them:
  \<open>rangeOf mp kvs\<close> says that \<open>kvs\<close> is such a list for the map \<open>mp\<close>.
\<close>

definition rangeOf :: "('k \<rightharpoonup> 'v) \<Rightarrow> ('k \<times> 'v) list \<Rightarrow> bool" where
  "rangeOf mp kvs \<longleftrightarrow> distinct (map fst kvs) \<and> map_of kvs = mp"

text \<open>The counting idiom of the source: add to the entry when present, else set it.\<close>

definition addCount :: "('k \<rightharpoonup> int64) \<Rightarrow> 'k \<Rightarrow> int64 \<Rightarrow> ('k \<rightharpoonup> int64)" where
  "addCount mp key c =
     (case mp key of Some n \<Rightarrow> mp(key \<mapsto> n + c) | None \<Rightarrow> mp(key \<mapsto> c))"

text \<open>
  The loop \<open>for p := lowestProtocol; p <= dev.HighestProtocol; p++\<close>. When
  \<open>dev.HighestProtocol\<close> is the largest \<open>int\<close>, the increment wraps and the condition
  stays true, so the loop need not exit: not returning is the value \<open>None\<close>.
\<close>

partial_function (option) protocolLoop ::
    "goint \<Rightarrow> goint \<Rightarrow> int64 \<Rightarrow> (goint \<rightharpoonup> int64) \<Rightarrow> (goint \<rightharpoonup> int64) option" where
  "protocolLoop p hi c prots =
     (if sint p \<le> sint hi then protocolLoop (p + 1) hi c (addCount prots p c) else Some prots)"

text \<open>
  The local variables \<open>protocols\<close>, \<open>ciphers\<close>, \<open>curves\<close> and \<open>total\<close> of
  \<open>getTLSStats\<close>, and its map \<open>deviceKeys\<close>, in which the last device of a key wins.
\<close>

record Counters =
  cnt_protocols :: "goint \<rightharpoonup> int64"
  cnt_ciphers :: "goint \<rightharpoonup> int64"
  cnt_curves :: "goint \<rightharpoonup> int64"
  cnt_total :: int64

definition deviceMap :: "Device list \<Rightarrow> (string \<rightharpoonup> Device)" where
  "deviceMap devs = foldl (\<lambda>deviceKeys d. deviceKeys(deviceKey d \<mapsto> d)) Map.empty devs"

text \<open>The body of the loop of \<open>getTLSStats\<close> over the entries \<open>b, c\<close> of \<open>browsers\<close>.\<close>

definition tallyEntry :: "(string \<rightharpoonup> Device) \<Rightarrow> Counters \<Rightarrow> string \<times> int64 \<Rightarrow> error + Counters" where
  "tallyEntry deviceKeys s bc =
     (let b = fst bc; c = snd bc;
          s1 = s\<lparr>cnt_total := cnt_total s + c\<rparr> in
        case deviceKeys b of
          Some dev \<Rightarrow>
            (let lowestProtocol =
                   (if sint (LowestProtocol dev) > 768 then LowestProtocol dev else 768)
             in case protocolLoop lowestProtocol (HighestProtocol dev) c (cnt_protocols s1) of
                  None \<Rightarrow> Inl NonTermination
                | Some prots \<Rightarrow>
                    Inr (s1\<lparr>cnt_protocols := prots,
                             cnt_ciphers :=
                               foldl (\<lambda>mp cid. addCount mp cid c) (cnt_ciphers s1) (SuiteIds dev),
                             cnt_curves :=
                               foldl (\<lambda>mp cid. addCount mp cid c) (cnt_curves s1) (EllipticCurves dev)\<rparr>))
        | None \<Rightarrow> Inr s1)"

text \<open>A loop whose body may fail: the first failure ends the run.\<close>

fun forEach :: "('s \<Rightarrow> 'a \<Rightarrow> error + 's) \<Rightarrow> 's \<Rightarrow> 'a list \<Rightarrow> error + 's" where
  "forEach body s [] = Inr s"
| "forEach body s (x # xs) =
     (case body s x of Inl e \<Rightarrow> Inl e | Inr s' \<Rightarrow> forEach body s' xs)"

text \<open>
  The element type of \<open>kv\<close>; the source's fields \<open>k\<close> and \<open>v\<close> are \<open>kv_k\<close> and
  \<open>kv_v\<close>.
\<close>

record intByInt64 =
  kv_k :: goint
  kv_v :: int64

type_synonym kv = "intByInt64 list"

record TLSStats =
  Protocols :: "goint \<rightharpoonup> int64"
  Ciphers :: "goint \<rightharpoonup> int64"
  Curves :: "goint \<rightharpoonup> int64"
  Total :: int64
  devices :: "Device list"
  protocols :: kv
  ciphers :: kv
  curves :: kv

text \<open>
  \<open>getTLSStats\<close>; its argument \<open>browsers\<close> is the map of the source as the list of
  entries that the \<open>range\<close> loop visits.
\<close>

definition getTLSStats :: "(string \<times> int64) list \<Rightarrow> Device list \<Rightarrow> error + TLSStats" where
  "getTLSStats browsers devs =
     (case forEach (tallyEntry (deviceMap devs))
             \<lparr>cnt_protocols = Map.empty, cnt_ciphers = Map.empty, cnt_curves = Map.empty,
              cnt_total = 0\<rparr> browsers of
        Inl e \<Rightarrow> Inl e
      | Inr s \<Rightarrow>
          Inr \<lparr>Protocols = cnt_protocols s, Ciphers = cnt_ciphers s, Curves = cnt_curves s,
               Total = cnt_total s, devices = devs,
               protocols = [], ciphers = [], curves = []\<rparr>)"

definition getDateRange :: "Browser list \<Rightarrow> Time \<times> Time" where
  "getDateRange browsers =
     (case browsers of
        [] \<Rightarrow> (0, 0)
      | b0 # _ \<Rightarrow>
          foldl (\<lambda>(start, end') br.
                   let date = Date br;
                       start' = (if start > date then date else start);
                       end'' = (if end' < date then date else end')
                   in (start', end''))
            (Date b0, Date b0) browsers)"

section \<open>Report builder\<close>

text \<open>
  A \<open>float64\<close> is modelled by the real number it stands for, or one of the three
  values that are not numbers; rounding to 53 bits is not modelled.
  \<open>float_quot v t\<close> is \<open>float64(v) / float64(t)\<close>: a division by zero gives an infinity
  or NaN, as IEEE 754 has it.
\<close>

datatype float64 = Finite real | PosInf | NegInf | NaN

definition float_quot :: "int64 \<Rightarrow> int64 \<Rightarrow> float64" where
  "float_quot v t =
     (if sint t = 0
      then (if 0 < sint v then PosInf else if sint v < 0 then NegInf else NaN)
      else Finite (real_of_int (sint v) / real_of_int (sint t)))"

record Entry =
  ID :: goint
  Percent :: float64
  Name :: string

record TLSStatistics =
  GenerationDate :: Time
  StartDate :: Time
  EndDate :: Time
  Protocols :: "Entry list"
  Ciphers :: "Entry list"
  Curves :: "Entry list"

text \<open>\<open>kv.Less\<close>, and the comparison of two elements that it makes.\<close>

definition kv_Less :: "kv \<Rightarrow> nat \<Rightarrow> nat \<Rightarrow> bool" where
  "kv_Less s i j \<longleftrightarrow> sint (kv_v (s ! i)) > sint (kv_v (s ! j))"

definition less_elem :: "intByInt64 \<Rightarrow> intByInt64 \<Rightarrow> bool" where
  "less_elem a b \<longleftrightarrow> kv_Less [a, b] 0 1"

text \<open>
  \<open>sort.Sort\<close> is the standard library's and a parameter of the model. Its contract:
  the result is a rearrangement of the slice in which no element is \<open>Less\<close> than one
  before it. The sort need not be stable.
\<close>

definition sortContract :: "(kv \<Rightarrow> kv) \<Rightarrow> kv \<Rightarrow> bool" where
  "sortContract srt xs \<longleftrightarrow>
     mset (srt xs) = mset xs \<and> sorted_wrt (\<lambda>a b. \<not> less_elem b a) (srt xs)"

text \<open>
  The library's \<open>insertionSort\<close>, which is all that \<open>sort.Sort\<close> runs on a short
  slice (one of at most six elements, in every release of the library): each element
  in turn is swapped towards the front while it is \<open>Less\<close> than its predecessor. \<open>sink x ys\<close> does so for \<open>x\<close>, where \<open>ys\<close> is the
  sorted part before \<open>x\<close>, last element first.
\<close>

fun sink :: "intByInt64 \<Rightarrow> kv \<Rightarrow> kv" where
  "sink x [] = [x]"
| "sink x (y # ys) = (if less_elem x y then y # sink x ys else x # y # ys)"

definition insertionSort :: "kv \<Rightarrow> kv" where
  "insertionSort xs = rev (foldl (\<lambda>acc x. sink x acc) [] xs)"

text \<open>
  The tables \<open>CipherSuiteMap\<close> and \<open>NamedCurves\<close> are declared outside the sources at
  hand, as the version tables are. \<open>Runtime\<close> collects what the model takes from
  outside: these tables, the library's sort, and the order in which \<open>range\<close> visits
  the maps of the run.
\<close>

record Runtime =
  versions :: VersionTables
  CipherSuiteMap :: "16 word \<rightharpoonup> string"
  NamedCurves :: "16 word \<rightharpoonup> string"
  sortSort :: "kv \<Rightarrow> kv"
  rangeBrowsers :: "(string \<rightharpoonup> int64) \<Rightarrow> (string \<times> int64) list"
  rangeCounts :: "(goint \<rightharpoonup> int64) \<Rightarrow> (goint \<times> int64) list"

text \<open>One of the four passes of \<open>TLSStats.sort\<close>: collect the entries, sort them.\<close>

definition sortedEntries :: "Runtime \<Rightarrow> (goint \<rightharpoonup> int64) \<Rightarrow> kv" where
  "sortedEntries rt mp =
     sortSort rt (foldl (\<lambda>data (k, v). data @ [\<lparr>kv_k = k, kv_v = v\<rparr>]) [] (rangeCounts rt mp))"

definition TLSStats_sort :: "Runtime \<Rightarrow> TLSStats \<Rightarrow> TLSStats" where
  "TLSStats_sort rt stats =
     (let stats1 = stats\<lparr>protocols := sortedEntries rt (TLSStats.Protocols stats)\<rparr>;
          stats2 = stats1\<lparr>ciphers := sortedEntries rt (TLSStats.Ciphers stats1)\<rparr>;
          stats3 = stats2\<lparr>ciphers := sortedEntries rt (TLSStats.Ciphers stats2)\<rparr>
      in stats3\<lparr>curves := sortedEntries rt (TLSStats.Curves stats3)\<rparr>)"

definition cipherMapsEntry ::
    "string list \<Rightarrow> (goint \<rightharpoonup> string) \<Rightarrow> nat \<times> goint \<Rightarrow> error + (goint \<rightharpoonup> string)" where
  "cipherMapsEntry names out ii =
     (let ind = fst ii; id = snd ii in
      case out id of
        Some _ \<Rightarrow> Inr out
      | None \<Rightarrow>
          if ind < length names then Inr (out(id \<mapsto> names ! ind)) else Inl IndexOutOfRange)"

definition cipherMaps :: "Device list \<Rightarrow> error + (goint \<rightharpoonup> string)" where
  "cipherMaps devs =
     forEach (\<lambda>out dev. forEach (cipherMapsEntry (SuiteNames dev)) out
                           (enumerate 0 (SuiteIds dev)))
       Map.empty devs"

definition getProtocolName :: "goint \<Rightarrow> string" where
  "getProtocolName p =
     (if p = 768 then ''SSL v3.0''
      else if p = 769 then ''TLS v1.0''
      else if p = 770 then ''TLS v1.1''
      else if p = 771 then ''TLS v1.2''
      else if p = 772 then ''TLS v1.3''
      else ''Unknown Protocol'')"

definition getCipherName :: "Runtime \<Rightarrow> goint \<Rightarrow> (goint \<rightharpoonup> string) \<Rightarrow> string" where
  "getCipherName rt c nonStandard =
     (case CipherSuiteMap rt (ucast c) of
        Some cipher \<Rightarrow> cipher
      | None \<Rightarrow> (case nonStandard c of Some cipher \<Rightarrow> cipher | None \<Rightarrow> ''Nonstandard Cipher''))"

definition getCurveName :: "Runtime \<Rightarrow> goint \<Rightarrow> string" where
  "getCurveName rt c =
     (case NamedCurves rt (ucast c) of Some curve \<Rightarrow> curve | None \<Rightarrow> ''Nonstandard Curve'')"

text \<open>
  \<open>toJSONStruct\<close>. \<open>gen\<close> is the value of
  \<open>time.Date(year, month, day, 0, 0, 0, 0, time.UTC)\<close> for the date of \<open>time.Now()\<close>.
  A panic of \<open>cipherMaps\<close> ends the run.
\<close>

definition toJSONStruct :: "Runtime \<Rightarrow> Time \<Rightarrow> TLSStats \<Rightarrow> Time \<Rightarrow> Time \<Rightarrow> error + TLSStatistics" where
  "toJSONStruct rt gen stats0 start end' =
     (let stats = TLSStats_sort rt stats0;
          prots = map (\<lambda>pp. \<lparr>ID = kv_k pp,
                              Percent = float_quot (kv_v pp) (Total stats),
                              Name = getProtocolName (kv_k pp)\<rparr>) (protocols stats)
      in case cipherMaps (devices stats) of
           Inl e \<Rightarrow> Inl e
         | Inr ciphersWithNonStandardNames \<Rightarrow>
             Inr \<lparr>GenerationDate = gen, StartDate = start, EndDate = end',
                  Protocols = prots,
                  Ciphers = map (\<lambda>cc. \<lparr>ID = kv_k cc,
                                        Percent = float_quot (kv_v cc) (Total stats),
                                        Name = getCipherName rt (kv_k cc) ciphersWithNonStandardNames\<rparr>)
                              (ciphers stats),
                  Curves = map (\<lambda>cc. \<lparr>ID = kv_k cc,
                                       Percent = float_quot (kv_v cc) (Total stats),
                                       Name = getCurveName rt (kv_k cc)\<rparr>) (curves stats)\<rparr>)"

section \<open>The pipeline and the cache manager\<close>

text \<open>
  What the pipeline takes from the operating system and the standard library: the
  clock (read once for a run), the calendar functions of package \<open>time\<close> at the layout
  \<open>dateFormat\<close>, the parsers and printers, the network, \<open>path.Join\<close>, and the home
  directory that \<open>getHome\<close> found. \<open>initNow\<close> is the clock at package initialisation.
  \<open>midnightUTC t\<close> is \<open>time.Date(y, m, d, 0, 0, 0, 0, time.UTC)\<close> for the date
  \<open>y, m, d\<close> of \<open>t\<close>, and \<open>lastYearStart t\<close> is \<open>time.Date(y - 1, 0, 0, 0, 0, 0, 0, time.UTC)\<close>.
\<close>

datatype goerr = DownloadExists string | UnmarshalError | MarshalError

record Sys =
  runtime :: Runtime
  now :: Time
  initNow :: Time
  AddDate :: "Time \<Rightarrow> int \<Rightarrow> int \<Rightarrow> int \<Rightarrow> Time"
  Format :: "Time \<Rightarrow> string"
  midnightUTC :: "Time \<Rightarrow> Time"
  lastYearStart :: "Time \<Rightarrow> Time"
  ParseInt :: "string \<Rightarrow> int64 option"
  time_Parse :: "string \<Rightarrow> Time option"
  scanLines :: "string \<Rightarrow> string list"
  unmarshalDevices :: "string \<Rightarrow> Device list"
  unmarshalStatistics :: "string \<Rightarrow> TLSStatistics \<Rightarrow> goerr option \<times> TLSStatistics"
  marshalIndent :: "TLSStatistics \<Rightarrow> goerr + string"
  httpGet :: "string \<Rightarrow> string option"
  path_Join :: "string \<Rightarrow> string \<Rightarrow> string"
  home :: string

text \<open>
  The file system is a map from paths to files; a file can be read or not. Creating,
  writing and renaming a file always succeed in this model.
\<close>

datatype fsnode = Readable string | Unreadable

record World =
  files :: "string \<rightharpoonup> fsnode"

definition BrowserStats :: string where
  "BrowserStats = ''https://analytics.wikimedia.org/datasets/periodic/reports/metrics/browser/all_sites_by_os_and_browser.tsv''"

definition DeviceDetails :: string where
  "DeviceDetails = ''https://api.ssllabs.com/api/v3/getClients''"

definition statsHome :: "Sys \<Rightarrow> string" where
  "statsHome sys = path_Join sys (home sys) ''stats''"

definition dataHome :: "Sys \<Rightarrow> string" where
  "dataHome sys = path_Join sys (home sys) ''data''"

definition today :: "Sys \<Rightarrow> string" where
  "today sys = Format sys (initNow sys)"

definition browserStatsData :: "Sys \<Rightarrow> string" where
  "browserStatsData sys = path_Join sys (dataHome sys) (''browser-stats-'' @ today sys @ ''.tsv'')"

definition deviceCiphers :: "Sys \<Rightarrow> string" where
  "deviceCiphers sys = path_Join sys (dataHome sys) (''device-ciphers-'' @ today sys @ ''.json'')"

definition jsonStatsOut :: "Sys \<Rightarrow> string" where
  "jsonStatsOut sys = path_Join sys (statsHome sys) ''tls-stats-current.json''"

text \<open>
  \<open>download\<close>. The errors of \<open>http.Get\<close>, \<open>os.Create\<close> and \<open>io.Copy\<close> are assigned to
  variables that shadow the result \<open>err\<close>, so the first branch returns \<open>nil\<close>.
\<close>

definition download :: "Sys \<Rightarrow> World \<Rightarrow> string \<Rightarrow> string \<Rightarrow> bool \<Rightarrow> goerr option \<times> World" where
  "download sys w filename url force =
     (if force \<or> files w filename = None
      then (case httpGet sys url of
              Some body \<Rightarrow> (None, w\<lparr>files := (files w)(filename \<mapsto> Readable body)\<rparr>)
            | None \<Rightarrow> (None, w))
      else (Some (DownloadExists filename), w))"

definition DownloadData :: "Sys \<Rightarrow> World \<Rightarrow> bool \<Rightarrow> goerr option \<times> World" where
  "DownloadData sys w force =
     (case download sys w (browserStatsData sys) BrowserStats force of
        (Some err, w1) \<Rightarrow> (Some err, w1)
      | (None, w1) \<Rightarrow>
          (case download sys w1 (deviceCiphers sys) DeviceDetails force of
             (Some err, w2) \<Rightarrow> (Some err, w2)
           | (None, w2) \<Rightarrow> (None, w2)))"

text \<open>The body of the scanner loop of \<open>loadBrowserOSStats\<close>, for one line.\<close>

definition loadBrowserLine :: "Sys \<Rightarrow> Time \<Rightarrow> Browser list \<Rightarrow> string \<Rightarrow> error + Browser list" where
  "loadBrowserLine sys yearAgo browsers line =
     (let data = strings_Split line (CHR 0x09) in
      if length data > 4 then
        (if length data > 5 then
           (case ParseInt sys (data ! 5) of
              Some percent \<Rightarrow>
                (case time_Parse sys (data ! 0) of
                   Some date \<Rightarrow>
                     (if date > yearAgo
                      then Inr (browsers @
                             [\<lparr>Date = date, BrowserFamily = data ! 3,
                               BrowserMajorVersion = data ! 4, OSFamily = data ! 1,
                               OSMajorVersion = data ! 2, Count = percent\<rparr>])
                      else Inr browsers)
                 | None \<Rightarrow> Inr browsers)
            | None \<Rightarrow> Inr browsers)
         else Inl IndexOutOfRange)
      else Inr browsers)"

definition loadBrowserOSStats :: "Sys \<Rightarrow> World \<Rightarrow> string \<Rightarrow> error + Browser list" where
  "loadBrowserOSStats sys w file =
     (let yearAgo = lastYearStart sys (now sys);
          scanned = (case files w file of
                       Some (Readable content) \<Rightarrow>
                         forEach (loadBrowserLine sys yearAgo) [] (scanLines sys content)
                     | _ \<Rightarrow> Inr [])
      in case scanned of
           Inl e \<Rightarrow> Inl e
         | Inr browsers \<Rightarrow>
             (if int (length browsers) - 1 > 0
              then (let lastDate = Date (browsers ! (length browsers - 1));
                        yearAgo' = AddDate sys lastDate (- 1) 0 0
                    in Inr (filter (\<lambda>b. Date b > yearAgo') browsers))
              else Inr browsers))"

definition loadDeviceDetails :: "Sys \<Rightarrow> World \<Rightarrow> string \<Rightarrow> Device list" where
  "loadDeviceDetails sys w file =
     (case files w file of
        Some (Readable bytes) \<Rightarrow> unmarshalDevices sys bytes
      | _ \<Rightarrow> [])"

text \<open>
  The body of \<open>analyseStats\<close> after its two loads: the join loop, \<open>getTLSStats\<close> on
  \<open>browserMap\<close> in the order \<open>rangeBrowsers\<close> gives, and the date range.
\<close>

definition analyseStats_body ::
    "Runtime \<Rightarrow> Browser list \<Rightarrow> Device list \<Rightarrow> error + (TLSStats \<times> Time \<times> Time)" where
  "analyseStats_body rt browsers devs =
     (let js = joinLoop (versions rt) browsers devs in
      case getTLSStats (rangeBrowsers rt (browserMap js)) devs of
        Inl e \<Rightarrow> Inl e
      | Inr stats \<Rightarrow> Inr (stats, fst (getDateRange browsers), snd (getDateRange browsers)))"

definition analyseStats :: "Sys \<Rightarrow> World \<Rightarrow> error + (TLSStats \<times> Time \<times> Time)" where
  "analyseStats sys w =
     (case loadBrowserOSStats sys w (browserStatsData sys) of
        Inl e \<Rightarrow> Inl e
      | Inr browsers \<Rightarrow>
          analyseStats_body (runtime sys) browsers (loadDeviceDetails sys w (deviceCiphers sys)))"

text \<open>
  What a call of \<open>GetStats\<close> or \<open>analyseAndWriteToFile\<close> returns: the two results and
  the file system it leaves; \<open>None\<close> is the error \<open>nil\<close>.
\<close>

type_synonym outcome = "error + ((TLSStatistics \<times> goerr option) \<times> World)"

definition analyseAndWriteToFile :: "Sys \<Rightarrow> World \<Rightarrow> outcome" where
  "analyseAndWriteToFile sys w =
     (case analyseStats sys w of
        Inl e \<Rightarrow> Inl e
      | Inr (stats, start, end') \<Rightarrow>
          (case toJSONStruct (runtime sys) (midnightUTC sys (now sys)) stats start end' of
             Inl e \<Rightarrow> Inl e
           | Inr statistics \<Rightarrow>
               (case marshalIndent sys statistics of
                  Inr data \<Rightarrow>
                    Inr ((statistics, None),
                         w\<lparr>files := (files w)(jsonStatsOut sys \<mapsto> Readable data)\<rparr>)
                | Inl err \<Rightarrow> Inr ((statistics, Some err), w))))"

text \<open>The zero value of \<open>TLSStatistics\<close>.\<close>

definition zeroStatistics :: TLSStatistics where
  "zeroStatistics =
     \<lparr>GenerationDate = 0, StartDate = 0, EndDate = 0, Protocols = [], Ciphers = [], Curves = []\<rparr>"

definition os_Rename :: "World \<Rightarrow> string \<Rightarrow> string \<Rightarrow> World" where
  "os_Rename w oldpath newpath =
     w\<lparr>files := ((files w)(oldpath := None))(newpath := files w oldpath)\<rparr>"

text \<open>The name under which \<open>renameCurrentStats\<close> archives a report.\<close>

definition jsonStatsOutBackup :: "Sys \<Rightarrow> TLSStatistics \<Rightarrow> string" where
  "jsonStatsOutBackup sys stats =
     path_Join sys (statsHome sys) (''tls-stats-'' @ Format sys (GenerationDate stats) @ ''.json'')"

definition renameCurrentStats :: "Sys \<Rightarrow> World \<Rightarrow> World" where
  "renameCurrentStats sys w =
     (case files w (jsonStatsOut sys) of
        None \<Rightarrow> w
      | Some Unreadable \<Rightarrow> w
      | Some (Readable data) \<Rightarrow>
          (case unmarshalStatistics sys data zeroStatistics of
             (None, stats) \<Rightarrow> os_Rename w (jsonStatsOut sys) (jsonStatsOutBackup sys stats)
           | (Some err, stats) \<Rightarrow> w))"

text \<open>
  \<open>GetStats\<close>. In the branch where the report exists, the errors of reading and of
  parsing are assigned to a variable \<open>e\<close> that shadows the result, and the final
  \<open>return\<close> gives back the result variables as they stand: \<open>statistics\<close> as
  \<open>json.Unmarshal\<close> left it, and the error \<open>nil\<close>.
\<close>

definition GetStats :: "Sys \<Rightarrow> World \<Rightarrow> bool \<Rightarrow> outcome" where
  "GetStats sys w forceDownload =
     (if forceDownload then
        (case DownloadData sys w True of
           (None, w1) \<Rightarrow> analyseAndWriteToFile sys (renameCurrentStats sys w1)
         | (Some e, w1) \<Rightarrow> Inr ((zeroStatistics, Some e), w1))
      else if files w (jsonStatsOut sys) = None then
        analyseAndWriteToFile sys (snd (DownloadData sys w False))
      else
        (case files w (jsonStatsOut sys) of
           Some (Readable data) \<Rightarrow>
             (case unmarshalStatistics sys data zeroStatistics of
                (None, statistics) \<Rightarrow>
                  (if GenerationDate statistics < AddDate sys (now sys) 0 (- 6) 0
                   then analyseAndWriteToFile sys
                          (snd (DownloadData sys (renameCurrentStats sys w) False))
                   else Inr ((statistics, None), w))
              | (Some e, statistics) \<Rightarrow> Inr ((statistics, None), w))
         | _ \<Rightarrow> Inr ((zeroStatistics, None), w)))"

section \<open>Notions for the statements\<close>

text \<open>
  An order of visit for the statements below: \<open>rangeIn ks mp\<close> visits the keys of
  \<open>mp\<close> in the order in which they stand in \<open>ks\<close>.
\<close>

definition rangeIn :: "'k list \<Rightarrow> ('k \<rightharpoonup> 'v) \<Rightarrow> ('k \<times> 'v) list" where
  "rangeIn ks mp = concat (map (\<lambda>k. case mp k of Some v \<Rightarrow> [(k, v)] | None \<Rightarrow> []) ks)"

text \<open>
  What a run may do on a map of counts: visit each entry once, in some order, and sort
  the slice of the entries as the contract of \<open>sort.Sort\<close> says.
\<close>

definition admissible :: "Runtime \<Rightarrow> (goint \<rightharpoonup> int64) \<Rightarrow> bool" where
  "admissible rt mp \<longleftrightarrow>
     rangeOf mp (rangeCounts rt mp) \<and>
     sortContract (sortSort rt)
       (map (\<lambda>p. \<lparr>kv_k = fst p, kv_v = snd p\<rparr>) (rangeCounts rt mp))"

text \<open>The number of usage records of a run that normalise to a key.\<close>

definition recordsWithKey :: "VersionTables \<Rightarrow> string \<Rightarrow> Browser list \<Rightarrow> nat" where
  "recordsWithKey vt key bs = length (filter (\<lambda>b. browserKey vt b = key) bs)"

text \<open>
  The count of an entry of a report in the map it was made from, and the sum of the
  counts of a map.
\<close>

definition countOf :: "(goint \<rightharpoonup> int64) \<Rightarrow> Entry \<Rightarrow> int" where
  "countOf mp e = (case mp (ID e) of Some v \<Rightarrow> sint v | None \<Rightarrow> 0)"

definition countSum :: "(goint \<rightharpoonup> int64) \<Rightarrow> real" where
  "countSum mp = (\<Sum>k \<in> dom mp. real_of_int (case mp k of Some v \<Rightarrow> sint v | None \<Rightarrow> 0))"


text \<open>
  What the claims say of a sequence of entries made from a map of counts:
  \<open>descendingCounts\<close>, one entry for each key and the counts descending;
  \<open>tieBrokenOrder\<close>, the counts descending and the identifiers ascending among equal
  counts; \<open>percentsOf\<close>, each percent the quotient of count and total, and their sum
  the quotient of the sum of the counts and the total.
\<close>

definition descendingCounts :: "(goint \<rightharpoonup> int64) \<Rightarrow> Entry list \<Rightarrow> bool" where
  "descendingCounts mp es \<longleftrightarrow>
     distinct (map ID es) \<and> set (map ID es) = dom mp \<and>
     sorted_wrt (\<lambda>a b. countOf mp a \<ge> countOf mp b) es"

definition tieBrokenOrder :: "(goint \<rightharpoonup> int64) \<Rightarrow> Entry list \<Rightarrow> bool" where
  "tieBrokenOrder mp es \<longleftrightarrow>
     sorted_wrt (\<lambda>a b. countOf mp a > countOf mp b \<or>
                       (countOf mp a = countOf mp b \<and> sint (ID a) < sint (ID b))) es"


section \<open>Concrete inputs\<close>

subsection \<open>Usage records, capability profiles and version tables\<close>

definition noVersions :: VersionTables where
  "noVersions =
     \<lparr>chromeVers = Map.empty, firefoxVers = Map.empty, androidVers = Map.empty,
      safariVers = Map.empty, operaVers = Map.empty, edgeVers = Map.empty,
      ieVers = Map.empty\<rparr>"

definition chrome80Versions :: VersionTables where
  "chrome80Versions = noVersions\<lparr>chromeVers := [''90'' \<mapsto> ''80'']\<rparr>"

text \<open>The usage record and the capability profile of Scenario A.\<close>

definition chrome90 :: Browser where
  "chrome90 =
     \<lparr>Date = 0, BrowserFamily = ''Chrome'', BrowserMajorVersion = ''90'',
      OSFamily = ''Windows'', OSMajorVersion = ''10'', Count = 100\<rparr>"

definition chrome90Device :: Device where
  "chrome90Device =
     \<lparr>Device.Name = ''Chrome'', Platform = ''Win 10'', Version = ''90'',
      LowestProtocol = 769, HighestProtocol = 772,
      SuiteIds = [4865], SuiteNames = [''TLS_AES_128_GCM_SHA256''],
      EllipticCurves = [29]\<rparr>"

definition chromeMobile90 :: Browser where
  "chromeMobile90 =
     \<lparr>Date = 86400, BrowserFamily = ''Chrome Mobile'', BrowserMajorVersion = ''90'',
      OSFamily = ''Android'', OSMajorVersion = ''11'', Count = 7\<rparr>"

text \<open>Two usage records of different dates with the one key Firefox:3.\<close>

definition firefox3 :: Browser where
  "firefox3 =
     \<lparr>Date = 0, BrowserFamily = ''Firefox'', BrowserMajorVersion = ''3'',
      OSFamily = ''Linux'', OSMajorVersion = ''5'', Count = 40\<rparr>"

definition firefox3Later :: Browser where
  "firefox3Later = firefox3\<lparr>Date := 86400, Count := 2\<rparr>"

text \<open>A device with two suite identifiers and one suite name.\<close>

definition shortNamesDevice :: Device where
  "shortNamesDevice = chrome90Device\<lparr>SuiteIds := [4865, 4866]\<rparr>"

text \<open>A device whose highest protocol is below its lowest.\<close>

definition invertedDevice :: Device where
  "invertedDevice = chrome90Device\<lparr>LowestProtocol := 772, HighestProtocol := 771\<rparr>"

definition zeroCounters :: Counters where
  "zeroCounters =
     \<lparr>cnt_protocols = Map.empty, cnt_ciphers = Map.empty, cnt_curves = Map.empty,
      cnt_total = 0\<rparr>"

subsection \<open>Runs and tallies\<close>

text \<open>
  A run that has no table of names or versions, sorts by insertion, as \<open>sort.Sort\<close>
  does on a short slice, and visits the keys of a map in ascending order; and a run
  that visits the protocol 770 before 769.
\<close>

definition exampleRuntime :: Runtime where
  "exampleRuntime =
     \<lparr>versions = noVersions, CipherSuiteMap = Map.empty, NamedCurves = Map.empty,
      sortSort = insertionSort,
      rangeBrowsers = rangeIn [''Chrome:90''],
      rangeCounts = rangeIn [29, 769, 770, 771, 772, 4865]\<rparr>"

definition tiedRuntime :: Runtime where
  "tiedRuntime = exampleRuntime\<lparr>rangeCounts := rangeIn [770, 769, 4865, 29]\<rparr>"

text \<open>
  The tally of Scenario A, a tally with two protocols of equal count, and one with
  protocols of different counts.
\<close>

definition scenarioStats :: TLSStats where
  "scenarioStats =
     \<lparr>TLSStats.Protocols = [769 \<mapsto> 100, 770 \<mapsto> 100, 771 \<mapsto> 100, 772 \<mapsto> 100],
      TLSStats.Ciphers = [4865 \<mapsto> 100], TLSStats.Curves = [29 \<mapsto> 100],
      Total = 100, devices = [chrome90Device],
      protocols = [], ciphers = [], curves = []\<rparr>"

definition tiedStats :: TLSStats where
  "tiedStats = scenarioStats\<lparr>TLSStats.Protocols := [769 \<mapsto> 100, 770 \<mapsto> 100]\<rparr>"

definition mixedStats :: TLSStats where
  "mixedStats =
     scenarioStats\<lparr>TLSStats.Protocols := [769 \<mapsto> 30, 770 \<mapsto> 100, 771 \<mapsto> 100, 772 \<mapsto> 70]\<rparr>"

subsection \<open>A system and its file systems\<close>

text \<open>
  A system for the examples. Its clock counts days and stands at day 20000; a month
  has 30 days and a year 365; a date is printed as its day number. The usage data
  on the network is one line of six fields, separated by tabs, for Chrome 90 on
  day 19990 with the count 100; the capability data decodes to the profile of
  Scenario A. The text \<open>old report\<close> decodes to a report of day 19000,
  \<open>fresh report\<close> to one of day 19990, and no other text decodes.
\<close>

definition exampleTsv :: string where
  "exampleTsv =
     ''19990'' @ [CHR 0x09] @ ''W'' @ [CHR 0x09] @ ''7'' @ [CHR 0x09] @ ''Chrome'' @
     [CHR 0x09] @ ''90'' @ [CHR 0x09] @ ''100''"

definition exampleSys :: Sys where
  "exampleSys =
     \<lparr>runtime = exampleRuntime, now = 20000, initNow = 20000,
      AddDate = (\<lambda>t y m d. t + 365 * y + 30 * m + d),
      Format = (\<lambda>t. if t = 19000 then ''19000'' else if t = 19990 then ''19990'' else ''20000''),
      midnightUTC = (\<lambda>t. t),
      lastYearStart = (\<lambda>t. t - 730),
      ParseInt = (\<lambda>s. if s = ''100'' then Some 100 else None),
      time_Parse = (\<lambda>s. if s = ''19990'' then Some 19990 else None),
      scanLines = (\<lambda>s. strings_Split s (CHR 0x0A)),
      unmarshalDevices = (\<lambda>s. if s = ''devices'' then [chrome90Device] else []),
      unmarshalStatistics =
        (\<lambda>s st. if s = ''old report'' then (None, st\<lparr>GenerationDate := 19000\<rparr>)
                else if s = ''fresh report'' then (None, st\<lparr>GenerationDate := 19990\<rparr>)
                else (Some UnmarshalError, st)),
      marshalIndent = (\<lambda>st. Inr ''new report''),
      httpGet =
        (\<lambda>url. if url = BrowserStats then Some exampleTsv
               else if url = DeviceDetails then Some ''devices'' else None),
      path_Join = (\<lambda>a b. a @ ''/'' @ b),
      home = ''h''\<rparr>"

text \<open>The file system with nothing but a report artifact, and the one with nothing.\<close>

definition worldWith :: "string \<Rightarrow> World" where
  "worldWith report = \<lparr>files = [''h/stats/tls-stats-current.json'' \<mapsto> Readable report]\<rparr>"

definition emptyWorld :: World where
  "emptyWorld = \<lparr>files = Map.empty\<rparr>"

text \<open>The report that the example system computes.\<close>

definition exampleReport :: TLSStatistics where
  "exampleReport =
     \<lparr>GenerationDate = 20000, StartDate = 19990, EndDate = 19990,
      Protocols = [\<lparr>ID = 769, Percent = Finite 1, Name = ''TLS v1.0''\<rparr>,
                   \<lparr>ID = 770, Percent = Finite 1, Name = ''TLS v1.1''\<rparr>,
                   \<lparr>ID = 771, Percent = Finite 1, Name = ''TLS v1.2''\<rparr>,
                   \<lparr>ID = 772, Percent = Finite 1, Name = ''TLS v1.3''\<rparr>],
      Ciphers = [\<lparr>ID = 4865, Percent = Finite 1, Name = ''TLS_AES_128_GCM_SHA256''\<rparr>],
      Curves = [\<lparr>ID = 29, Percent = Finite 1, Name = ''Nonstandard Curve''\<rparr>]\<rparr>"

section \<open>Properties of the key normalizer\<close>

text \<open>
  C9. The join key is a function of the browser family and the major version alone:
  two usage records that agree on both get the same key under the same tables,
  whatever their dates, operating systems and counts. The model of \<open>browserKey\<close> has
  no other input than the record and the static tables.
\<close>

theorem browserKey_family_version:
  "BrowserFamily b1 = BrowserFamily b2 \<Longrightarrow>
   BrowserMajorVersion b1 = BrowserMajorVersion b2 \<Longrightarrow>
   browserKey vt b1 = browserKey vt b2"
  by (simp add: browserKey_def)

lemma browserKey_chromeMobile90: "browserKey chrome80Versions chromeMobile90 = ''Chrome:80''"
  by (simp add: browserKey_def chromeMobile90_def chrome80Versions_def noVersions_def
      dedupFamily_def sprintf_colon_def collapseVersion_def lookupVers_def)

theorem browserKey_family_version_witness:
  "BrowserFamily chromeMobile90 =
     BrowserFamily (chromeMobile90\<lparr>Date := 0, OSFamily := ''iOS'', Count := 1\<rparr>) \<and>
   BrowserMajorVersion chromeMobile90 =
     BrowserMajorVersion (chromeMobile90\<lparr>Date := 0, OSFamily := ''iOS'', Count := 1\<rparr>) \<and>
   browserKey chrome80Versions chromeMobile90 = ''Chrome:80'' \<and>
   browserKey chrome80Versions (chromeMobile90\<lparr>Date := 0, OSFamily := ''iOS'', Count := 1\<rparr>) =
     ''Chrome:80''"
  using browserKey_family_version
          [of chromeMobile90 "chromeMobile90\<lparr>Date := 0, OSFamily := ''iOS'', Count := 1\<rparr>"
              chrome80Versions]
  by (simp add: browserKey_chromeMobile90)

section \<open>Properties of the name lookup\<close>

lemma forEach_cipherMapsEntry_total:
  "\<forall>p \<in> set xs. fst p < length names \<Longrightarrow>
   \<exists>out'. forEach (cipherMapsEntry names) out xs = Inr out'"
proof (induction xs arbitrary: out)
  case Nil
  then show ?case by simp
next
  case (Cons x xs)
  then have "fst x < length names" by simp
  then obtain o1 where "cipherMapsEntry names out x = Inr o1"
    by (cases "out (snd x)") (auto simp: cipherMapsEntry_def Let_def)
  with Cons show ?case by simp
qed

lemma cipherMaps_loop_total:
  "\<forall>dev \<in> set devs. length (SuiteNames dev) = length (SuiteIds dev) \<Longrightarrow>
   \<exists>out'. forEach (\<lambda>out dev. forEach (cipherMapsEntry (SuiteNames dev)) out
                           (enumerate 0 (SuiteIds dev))) out devs = Inr out'"
proof (induction devs arbitrary: out)
  case Nil
  then show ?case by simp
next
  case (Cons d ds)
  then have "\<forall>p \<in> set (enumerate 0 (SuiteIds d)). fst p < length (SuiteNames d)"
    by (auto simp: in_set_enumerate_eq)
  from forEach_cipherMapsEntry_total [OF this]
  obtain o1 where
    "forEach (cipherMapsEntry (SuiteNames d)) out (enumerate 0 (SuiteIds d)) = Inr o1"
    by blast
  with Cons show ?case by simp
qed

lemma cipherMaps_returns:
  "\<forall>dev \<in> set devs. length (SuiteNames dev) = length (SuiteIds dev) \<Longrightarrow>
   \<exists>out. cipherMaps devs = Inr out"
  unfolding cipherMaps_def by (rule cipherMaps_loop_total)

text \<open>
  C10. When every device has as many suite names as suite identifiers, \<open>cipherMaps\<close>
  returns a map: no read of \<open>SuiteNames\<close> is out of range. The condition is needed:
  on a device with two identifiers, not met before, and one name, the run panics on
  an index out of range.
\<close>

theorem cipherMaps_parallel_arrays:
  "((\<forall>dev \<in> set devs. length (SuiteNames dev) = length (SuiteIds dev)) \<longrightarrow>
      (\<exists>out. cipherMaps devs = Inr out)) \<and>
   length (SuiteNames shortNamesDevice) \<noteq> length (SuiteIds shortNamesDevice) \<and>
   cipherMaps [shortNamesDevice] = Inl IndexOutOfRange"
proof (intro conjI impI)
  assume "\<forall>dev \<in> set devs. length (SuiteNames dev) = length (SuiteIds dev)"
  then show "\<exists>out. cipherMaps devs = Inr out" by (rule cipherMaps_returns)
next
  show "length (SuiteNames shortNamesDevice) \<noteq> length (SuiteIds shortNamesDevice)"
    by (simp add: shortNamesDevice_def chrome90Device_def)
next
  show "cipherMaps [shortNamesDevice] = Inl IndexOutOfRange"
    by (simp add: cipherMaps_def shortNamesDevice_def chrome90Device_def enumerate_eq_zip
        cipherMapsEntry_def upt_rec)
qed

theorem cipherMaps_parallel_arrays_witness:
  "length (SuiteNames chrome90Device) = length (SuiteIds chrome90Device) \<and>
   cipherMaps [chrome90Device] = Inr [4865 \<mapsto> ''TLS_AES_128_GCM_SHA256'']"
proof -
  have h: "\<forall>dev \<in> set [chrome90Device]. length (SuiteNames dev) = length (SuiteIds dev)"
    by (simp add: chrome90Device_def)
  from cipherMaps_parallel_arrays [of "[chrome90Device]"] h
  obtain out where "cipherMaps [chrome90Device] = Inr out" by blast
  moreover have "cipherMaps [chrome90Device] = Inr [4865 \<mapsto> ''TLS_AES_128_GCM_SHA256'']"
    by (simp add: cipherMaps_def chrome90Device_def enumerate_eq_zip cipherMapsEntry_def upt_rec)
  ultimately show ?thesis using h by simp
qed

section \<open>Properties of the join\<close>

lemma browserMap_joinStep_unmatched:
  "dk (browserKey vt b) = None \<Longrightarrow> browserMap (joinStep vt dk s b) = browserMap s"
  by (simp add: joinStep_def Let_def)

lemma browserMap_joinStep_cong:
  "browserMap s = browserMap s' \<Longrightarrow>
   browserMap (joinStep vt dk s b) = browserMap (joinStep vt dk s' b)"
  by (simp add: joinStep_def Let_def split: option.splits)

lemma browserMap_foldl_joinStep_cong:
  "browserMap s = browserMap s' \<Longrightarrow>
   browserMap (foldl (joinStep vt dk) s bs) = browserMap (foldl (joinStep vt dk) s' bs)"
proof (induction bs arbitrary: s s')
  case Nil
  then show ?case by simp
next
  case (Cons b bs)
  from Cons.prems have "browserMap (joinStep vt dk s b) = browserMap (joinStep vt dk s' b)"
    by (rule browserMap_joinStep_cong)
  then have "browserMap (foldl (joinStep vt dk) (joinStep vt dk s b) bs) =
             browserMap (foldl (joinStep vt dk) (joinStep vt dk s' b) bs)"
    by (rule Cons.IH)
  then show ?case by simp
qed

lemma dom_deviceKeySet_aux:
  "dom (foldl (\<lambda>deviceKeys d. deviceKeys(deviceKey d \<mapsto> True)) mp devs) =
   dom mp \<union> deviceKey ` set devs"
  by (induction devs arbitrary: mp) auto

lemma dom_deviceKeySet: "dom (deviceKeySet devs) = deviceKey ` set devs"
  by (simp add: deviceKeySet_def dom_deviceKeySet_aux)

lemma deviceKeySet_None: "k \<notin> deviceKey ` set devs \<Longrightarrow> deviceKeySet devs k = None"
  using dom_deviceKeySet [of devs] by blast

lemma browserMap_joinLoop_drop_unmatched:
  assumes "browserKey vt u \<notin> deviceKey ` set devs"
  shows "browserMap (joinLoop vt (bs1 @ u # bs2) devs) = browserMap (joinLoop vt (bs1 @ bs2) devs)"
proof -
  have "deviceKeySet devs (browserKey vt u) = None"
    using assms by (rule deviceKeySet_None)
  then show ?thesis
    unfolding joinLoop_def foldl_append foldl_Cons
    by (intro browserMap_foldl_joinStep_cong browserMap_joinStep_unmatched)
qed

lemma found_foldl_joinStep:
  "found (foldl (joinStep vt dk) s bs) =
   found s + of_nat (length (filter (\<lambda>b. dk (browserKey vt b) \<noteq> None) bs))"
  by (induction bs arbitrary: s) (auto simp: joinStep_def Let_def split: option.splits)

lemma notfound_foldl_joinStep:
  "notfound (foldl (joinStep vt dk) s bs) =
   notfound s + of_nat (length (filter (\<lambda>b. dk (browserKey vt b) = None) bs))"
  by (induction bs arbitrary: s) (auto simp: joinStep_def Let_def split: option.splits)

lemma unmatched_joinStep:
  "unmatched (joinStep vt dk s b) =
     (if dk (browserKey vt b) = None
      then (unmatched s)(browserKey vt b \<mapsto>
             (case unmatched s (browserKey vt b) of Some n \<Rightarrow> n + 1 | None \<Rightarrow> 1))
      else unmatched s)"
  by (auto simp: joinStep_def Let_def split: option.splits)

lemma unmatched_foldl_joinStep:
  assumes "dk key = None"
  shows "unmatched (foldl (joinStep vt dk) s bs) key =
     (if recordsWithKey vt key bs = 0 then unmatched s key
      else Some ((case unmatched s key of Some n \<Rightarrow> n | None \<Rightarrow> 0) +
                 of_nat (recordsWithKey vt key bs)))"
proof (induction bs arbitrary: s)
  case Nil
  then show ?case by (simp add: recordsWithKey_def)
next
  case (Cons b bs)
  show ?case
  proof (cases "browserKey vt b = key")
    case True
    then show ?thesis
      using assms
      by (simp add: Cons.IH unmatched_joinStep recordsWithKey_def split: option.splits)
  next
    case False
    then show ?thesis
      by (simp add: Cons.IH unmatched_joinStep recordsWithKey_def)
  qed
qed

lemma addCount_apply:
  "addCount mp a c k =
     (if k = a then Some ((case mp a of Some n \<Rightarrow> n | None \<Rightarrow> 0) + c) else mp k)"
  by (simp add: addCount_def split: option.splits)

lemma foldl_addCount:
  "foldl (\<lambda>mp cid. addCount mp cid c) mp ids k =
     (if k \<in> set ids
      then Some ((case mp k of Some n \<Rightarrow> n | None \<Rightarrow> 0) + of_nat (count_list ids k) * c)
      else mp k)"
proof (induction ids arbitrary: mp)
  case Nil
  then show ?case by simp
next
  case (Cons a ids)
  show ?case
    unfolding foldl_Cons
    by (subst Cons.IH) (simp add: addCount_apply algebra_simps)
qed

lemma protocolLoop_empty: "sint hi < sint p \<Longrightarrow> protocolLoop p hi c prots = Some prots"
  by (subst protocolLoop.simps) simp

section \<open>Properties of the aggregation\<close>

lemma rangeOf_single:
  assumes "rangeOf (Map.empty(k \<mapsto> v)) kvs"
  shows "kvs = [(k, v)]"
proof -
  from assms have d: "distinct (map fst kvs)" and m: "map_of kvs = Map.empty(k \<mapsto> v)"
    by (simp_all add: rangeOf_def)
  from m have "dom (map_of kvs) = {k}" by simp
  then have s: "set (map fst kvs) = {k}" by (simp add: dom_map_of_conv_image_fst)
  with d have "length (map fst kvs) = 1"
    by (metis distinct_card is_singletonI is_singleton_altdef)
  then obtain e where e: "kvs = [e]"
    by (cases kvs) auto
  with s have "fst e = k" by simp
  moreover from m e have "snd e = v"
    by (cases e) (auto simp: fun_eq_iff split: if_splits)
  ultimately show ?thesis using e by (cases e) simp
qed

lemma browserKey_chrome90:
  assumes "BrowserFamily b = ''Chrome''" and "BrowserMajorVersion b = ''90''"
    and "chromeVers vt ''90'' = None \<or> chromeVers vt ''90'' = Some ''90''"
  shows "browserKey vt b = ''Chrome:90''"
  using assms
  by (auto simp: browserKey_def dedupFamily_def sprintf_colon_def collapseVersion_def
      lookupVers_def)

lemma getTLSStats_scenario_A:
  assumes "Device.Name d = ''Chrome''" and "Version d = ''90''"
    and "LowestProtocol d = 769" and "HighestProtocol d = 772"
    and "SuiteIds d = [4865]" and "EllipticCurves d = [29]"
  shows "getTLSStats [(''Chrome:90'', 100)] [d] =
     Inr \<lparr>TLSStats.Protocols = [769 \<mapsto> 100, 770 \<mapsto> 100, 771 \<mapsto> 100, 772 \<mapsto> 100],
          TLSStats.Ciphers = [4865 \<mapsto> 100], TLSStats.Curves = [29 \<mapsto> 100],
          Total = 100, devices = [d], protocols = [], ciphers = [], curves = []\<rparr>"
  using assms
  by (simp add: getTLSStats_def tallyEntry_def deviceMap_def deviceKey_def sprintf_colon_def
      protocolLoop.simps addCount_def)

lemma analyseStats_body_example:
  "analyseStats_body exampleRuntime [chrome90] [chrome90Device] =
     Inr (\<lparr>TLSStats.Protocols = [769 \<mapsto> 100, 770 \<mapsto> 100, 771 \<mapsto> 100, 772 \<mapsto> 100],
           TLSStats.Ciphers = [4865 \<mapsto> 100], TLSStats.Curves = [29 \<mapsto> 100],
           Total = 100, devices = [chrome90Device],
           protocols = [], ciphers = [], curves = []\<rparr>, 0, 0)"
proof -
  have key: "browserKey noVersions chrome90 = ''Chrome:90''"
    by (rule browserKey_chrome90) (simp_all add: chrome90_def noVersions_def)
  have bm: "browserMap (joinLoop noVersions [chrome90] [chrome90Device]) = [''Chrome:90'' \<mapsto> 100]"
    by (simp add: joinLoop_def joinStep_def deviceKeySet_def key deviceKey_def
        sprintf_colon_def chrome90Device_def) (simp add: chrome90_def)
  have "getTLSStats [(''Chrome:90'', 100)] [chrome90Device] =
     Inr \<lparr>TLSStats.Protocols = [769 \<mapsto> 100, 770 \<mapsto> 100, 771 \<mapsto> 100, 772 \<mapsto> 100],
          TLSStats.Ciphers = [4865 \<mapsto> 100], TLSStats.Curves = [29 \<mapsto> 100],
          Total = 100, devices = [chrome90Device],
          protocols = [], ciphers = [], curves = []\<rparr>"
    by (rule getTLSStats_scenario_A) (simp_all add: chrome90Device_def)
  moreover have "getDateRange [chrome90] = (0, 0)"
    by (simp add: getDateRange_def Let_def chrome90_def)
  ultimately show ?thesis
    by (simp add: analyseStats_body_def exampleRuntime_def bm rangeIn_def)
qed

text \<open>
  C5 (Scenario A). One usage record of family Chrome, version 90 and weight 100,
  joined with one capability profile Chrome 90 that supports the protocols 769 to 772,
  the cipher suite 4865 and the curve 29, gives the weight 100 to each of the four
  protocols, to the suite and to the curve, and the total weight 100. The Chrome
  version table, which is not among the sources, must leave the version 90 as it is.
\<close>

theorem scenario_A:
  assumes "BrowserFamily b = ''Chrome''" and "BrowserMajorVersion b = ''90''"
    and "Count b = 100"
    and "Device.Name d = ''Chrome''" and "Version d = ''90''"
    and "LowestProtocol d = 769" and "HighestProtocol d = 772"
    and "SuiteIds d = [4865]" and "EllipticCurves d = [29]"
    and "chromeVers (versions rt) ''90'' = None \<or> chromeVers (versions rt) ''90'' = Some ''90''"
    and "rangeOf [''Chrome:90'' \<mapsto> 100] (rangeBrowsers rt [''Chrome:90'' \<mapsto> 100])"
  shows "analyseStats_body rt [b] [d] =
     Inr (\<lparr>TLSStats.Protocols = [769 \<mapsto> 100, 770 \<mapsto> 100, 771 \<mapsto> 100, 772 \<mapsto> 100],
           TLSStats.Ciphers = [4865 \<mapsto> 100], TLSStats.Curves = [29 \<mapsto> 100],
           Total = 100, devices = [d], protocols = [], ciphers = [], curves = []\<rparr>,
          Date b, Date b)"
proof -
  have key: "browserKey (versions rt) b = ''Chrome:90''"
    using assms(1,2,10) by (rule browserKey_chrome90)
  have dk: "deviceKey d = ''Chrome:90''"
    using assms(4,5) by (simp add: deviceKey_def sprintf_colon_def)
  have bm: "browserMap (joinLoop (versions rt) [b] [d]) = [''Chrome:90'' \<mapsto> 100]"
    using assms(3) by (simp add: joinLoop_def joinStep_def deviceKeySet_def key dk)
  have "rangeBrowsers rt [''Chrome:90'' \<mapsto> 100] = [(''Chrome:90'', 100)]"
    using assms(11) by (rule rangeOf_single)
  then show ?thesis
    using getTLSStats_scenario_A [OF assms(4-9)]
    by (simp add: analyseStats_body_def bm getDateRange_def Let_def)
qed

theorem scenario_A_witness:
  "analyseStats_body exampleRuntime [chrome90] [chrome90Device] =
     Inr (\<lparr>TLSStats.Protocols = [769 \<mapsto> 100, 770 \<mapsto> 100, 771 \<mapsto> 100, 772 \<mapsto> 100],
           TLSStats.Ciphers = [4865 \<mapsto> 100], TLSStats.Curves = [29 \<mapsto> 100],
           Total = 100, devices = [chrome90Device],
           protocols = [], ciphers = [], curves = []\<rparr>, 0, 0)"
proof -
  have r: "rangeOf [''Chrome:90'' \<mapsto> 100]
             (rangeBrowsers exampleRuntime [''Chrome:90'' \<mapsto> (100 :: int64)])"
    by (simp add: rangeOf_def exampleRuntime_def rangeIn_def)
  have v: "chromeVers (versions exampleRuntime) ''90'' = None \<or>
           chromeVers (versions exampleRuntime) ''90'' = Some ''90''"
    by (simp add: exampleRuntime_def noVersions_def)
  show ?thesis
    using scenario_A [of chrome90 chrome90Device exampleRuntime, OF _ _ _ _ _ _ _ _ _ v r]
    by (simp add: chrome90_def chrome90Device_def)
qed

lemma found_joinStep:
  "found (joinStep vt dk s b) =
     (if dk (browserKey vt b) = None then found s else found s + 1)"
  by (auto simp: joinStep_def Let_def split: option.splits)

lemma notfound_joinStep:
  "notfound (joinStep vt dk s b) =
     (if dk (browserKey vt b) = None then notfound s + 1 else notfound s)"
  by (auto simp: joinStep_def Let_def split: option.splits)

text \<open>
  C4. A usage record whose key matches no capability profile leaves the map of the
  matched weights as it is, and with it the three maps of counts and the total
  weight of the tally, which is the denominator of every percent: the run gives the
  same tally with the record and without it. The record is counted in \<open>notfound\<close>
  only.
\<close>

theorem unmatched_contributes_nothing:
  assumes "browserKey (versions rt) u \<notin> deviceKey ` set devs"
  shows "browserMap (joinLoop (versions rt) (bs1 @ u # bs2) devs) =
           browserMap (joinLoop (versions rt) (bs1 @ bs2) devs) \<and>
         found (joinLoop (versions rt) (bs1 @ u # bs2) devs) =
           found (joinLoop (versions rt) (bs1 @ bs2) devs) \<and>
         notfound (joinLoop (versions rt) (bs1 @ u # bs2) devs) =
           notfound (joinLoop (versions rt) (bs1 @ bs2) devs) + 1 \<and>
         map_sum id fst (analyseStats_body rt (bs1 @ u # bs2) devs) =
           map_sum id fst (analyseStats_body rt (bs1 @ bs2) devs)"
proof -
  have none: "deviceKeySet devs (browserKey (versions rt) u) = None"
    using assms by (rule deviceKeySet_None)
  have bm: "browserMap (joinLoop (versions rt) (bs1 @ u # bs2) devs) =
            browserMap (joinLoop (versions rt) (bs1 @ bs2) devs)"
    using assms by (rule browserMap_joinLoop_drop_unmatched)
  have f: "found (joinLoop (versions rt) (bs1 @ u # bs2) devs) =
           found (joinLoop (versions rt) (bs1 @ bs2) devs)"
    using none by (simp add: joinLoop_def found_foldl_joinStep found_joinStep)
  have n: "notfound (joinLoop (versions rt) (bs1 @ u # bs2) devs) =
           notfound (joinLoop (versions rt) (bs1 @ bs2) devs) + 1"
    using none by (simp add: joinLoop_def notfound_foldl_joinStep notfound_joinStep)
  have "map_sum id fst (analyseStats_body rt (bs1 @ u # bs2) devs) =
        map_sum id fst (analyseStats_body rt (bs1 @ bs2) devs)"
    by (simp add: analyseStats_body_def bm Let_def split: sum.splits)
  with bm f n show ?thesis by simp
qed

theorem unmatched_contributes_nothing_witness:
  "browserKey (versions exampleRuntime) firefox3 \<noteq> deviceKey chrome90Device \<and>
   map_sum id fst (analyseStats_body exampleRuntime [chrome90, firefox3] [chrome90Device]) =
     Inr \<lparr>TLSStats.Protocols = [769 \<mapsto> 100, 770 \<mapsto> 100, 771 \<mapsto> 100, 772 \<mapsto> 100],
          TLSStats.Ciphers = [4865 \<mapsto> 100], TLSStats.Curves = [29 \<mapsto> 100],
          Total = 100, devices = [chrome90Device],
          protocols = [], ciphers = [], curves = []\<rparr> \<and>
   unmatched (joinLoop (versions exampleRuntime) [chrome90, firefox3] [chrome90Device]) =
     [''Firefox:3'' \<mapsto> 1]"
proof -
  have k: "browserKey (versions exampleRuntime) firefox3 = ''Firefox:3''"
    by (simp add: browserKey_def firefox3_def exampleRuntime_def noVersions_def
        dedupFamily_def sprintf_colon_def collapseVersion_def lookupVers_def)
  have d: "deviceKey chrome90Device = ''Chrome:90''"
    by (simp add: deviceKey_def chrome90Device_def sprintf_colon_def)
  have h: "browserKey (versions exampleRuntime) firefox3 \<notin> deviceKey ` set [chrome90Device]"
    by (simp add: k d)
  have kc: "browserKey (versions exampleRuntime) chrome90 = ''Chrome:90''"
    by (simp add: browserKey_def chrome90_def exampleRuntime_def noVersions_def
        dedupFamily_def sprintf_colon_def collapseVersion_def lookupVers_def)
  have u: "unmatched (joinLoop (versions exampleRuntime) [chrome90, firefox3] [chrome90Device]) =
     [''Firefox:3'' \<mapsto> 1]"
    by (simp add: joinLoop_def joinStep_def deviceKeySet_def k kc d)
  from unmatched_contributes_nothing [OF h, of "[chrome90]" "[]"] analyseStats_body_example
  have "map_sum id fst (analyseStats_body exampleRuntime [chrome90, firefox3] [chrome90Device]) =
     Inr \<lparr>TLSStats.Protocols = [769 \<mapsto> 100, 770 \<mapsto> 100, 771 \<mapsto> 100, 772 \<mapsto> 100],
          TLSStats.Ciphers = [4865 \<mapsto> 100], TLSStats.Curves = [29 \<mapsto> 100],
          Total = 100, devices = [chrome90Device],
          protocols = [], ciphers = [], curves = []\<rparr>"
    by simp
  with k d u show ?thesis by simp
qed

lemma browserKey_firefox3: "browserKey noVersions firefox3 = ''Firefox:3''"
  by (simp add: browserKey_def firefox3_def noVersions_def
      dedupFamily_def sprintf_colon_def collapseVersion_def lookupVers_def)

lemma browserKey_firefox3Later: "browserKey noVersions firefox3Later = ''Firefox:3''"
  by (simp add: browserKey_def firefox3Later_def firefox3_def noVersions_def
      dedupFamily_def sprintf_colon_def collapseVersion_def lookupVers_def)

lemma deviceKey_chrome90Device: "deviceKey chrome90Device = ''Chrome:90''"
  by (simp add: deviceKey_def chrome90Device_def sprintf_colon_def)

text \<open>
  C6 as stated fails: two usage records of different dates that normalise to the one
  unmatched key Firefox:3 leave the counter of that key at 2, one step for each
  record.
\<close>

theorem unmatched_once_per_key_counterexample:
  "browserKey noVersions firefox3 = ''Firefox:3'' \<and>
   browserKey noVersions firefox3Later = ''Firefox:3'' \<and>
   deviceKeySet [chrome90Device] ''Firefox:3'' = None \<and>
   unmatched (joinLoop noVersions [firefox3, firefox3Later] [chrome90Device]) = [''Firefox:3'' \<mapsto> 2] \<and>
   notfound (joinLoop noVersions [firefox3, firefox3Later] [chrome90Device]) = 2"
  by (simp add: joinLoop_def joinStep_def deviceKeySet_def browserKey_firefox3
      browserKey_firefox3Later deviceKey_chrome90Device)

text \<open>
  C6, amended. For a key that matches no capability profile, the diagnostic counter
  of the key is stepped once for each usage record that normalises to it: after the
  join it holds the number of these records, and the key has no counter when there is
  no such record.
\<close>

theorem unmatched_counts_records:
  assumes "key \<notin> deviceKey ` set devs"
  shows "unmatched (joinLoop vt bs devs) key =
           (if recordsWithKey vt key bs = 0 then None
            else Some (of_nat (recordsWithKey vt key bs)))"
proof -
  have "deviceKeySet devs key = None"
    using assms by (rule deviceKeySet_None)
  then show ?thesis
    by (simp add: joinLoop_def unmatched_foldl_joinStep)
qed

theorem unmatched_counts_records_witness:
  "''Firefox:3'' \<noteq> deviceKey chrome90Device \<and>
   recordsWithKey noVersions ''Firefox:3'' [firefox3, chrome90, firefox3Later] = 2 \<and>
   unmatched (joinLoop noVersions [firefox3, chrome90, firefox3Later] [chrome90Device])
     ''Firefox:3'' = Some 2"
proof -
  have h: "''Firefox:3'' \<notin> deviceKey ` set [chrome90Device]"
    by (simp add: deviceKey_chrome90Device)
  have c: "browserKey noVersions chrome90 = ''Chrome:90''"
    by (simp add: browserKey_def chrome90_def noVersions_def
        dedupFamily_def sprintf_colon_def collapseVersion_def lookupVers_def)
  have r: "recordsWithKey noVersions ''Firefox:3'' [firefox3, chrome90, firefox3Later] = 2"
    by (simp add: recordsWithKey_def browserKey_firefox3 browserKey_firefox3Later c)
  show ?thesis
    using unmatched_counts_records
            [OF h, of noVersions "[firefox3, chrome90, firefox3Later]"]
    by (simp add: r deviceKey_chrome90Device)
qed

text \<open>
  C8. For a matched profile whose highest protocol is below the larger of its lowest
  protocol and the floor 768, the step of the tally returns, leaves the protocol counts
  as they are, adds the weight to the total, and adds it to the count of each of the
  profile's cipher suites and curves (once for each occurrence of the identifier in
  the profile's list).
\<close>

theorem empty_protocol_range:
  assumes "deviceKeys b = Some dev"
    and "sint (HighestProtocol dev) < max (sint (LowestProtocol dev)) 768"
  shows "\<exists>s'. tallyEntry deviceKeys s (b, c) = Inr s' \<and>
           cnt_protocols s' = cnt_protocols s \<and>
           cnt_total s' = cnt_total s + c \<and>
           (\<forall>cid. cnt_ciphers s' cid =
              (if cid \<in> set (SuiteIds dev)
               then Some ((case cnt_ciphers s cid of Some n \<Rightarrow> n | None \<Rightarrow> 0) +
                          of_nat (count_list (SuiteIds dev) cid) * c)
               else cnt_ciphers s cid)) \<and>
           (\<forall>cid. cnt_curves s' cid =
              (if cid \<in> set (EllipticCurves dev)
               then Some ((case cnt_curves s cid of Some n \<Rightarrow> n | None \<Rightarrow> 0) +
                          of_nat (count_list (EllipticCurves dev) cid) * c)
               else cnt_curves s cid))"
proof -
  let ?lo = "if sint (LowestProtocol dev) > 768 then LowestProtocol dev else 768"
  have "sint (HighestProtocol dev) < sint ?lo"
    using assms(2) by (auto simp: max_def split: if_splits)
  then have "protocolLoop ?lo (HighestProtocol dev) c (cnt_protocols s) = Some (cnt_protocols s)"
    by (rule protocolLoop_empty)
  then show ?thesis
    using assms(1) by (simp add: tallyEntry_def Let_def foldl_addCount)
qed

theorem empty_protocol_range_witness:
  "[''Chrome:90'' \<mapsto> invertedDevice] ''Chrome:90'' = Some invertedDevice \<and>
   sint (HighestProtocol invertedDevice) < max (sint (LowestProtocol invertedDevice)) 768 \<and>
   tallyEntry [''Chrome:90'' \<mapsto> invertedDevice] zeroCounters (''Chrome:90'', 100) =
     Inr \<lparr>cnt_protocols = Map.empty, cnt_ciphers = [4865 \<mapsto> 100],
          cnt_curves = [29 \<mapsto> 100], cnt_total = 100\<rparr>"
proof -
  have h1: "[''Chrome:90'' \<mapsto> invertedDevice] ''Chrome:90'' = Some invertedDevice"
    by simp
  have h2: "sint (HighestProtocol invertedDevice) < max (sint (LowestProtocol invertedDevice)) 768"
    by (simp add: invertedDevice_def)
  from empty_protocol_range
         [of "[''Chrome:90'' \<mapsto> invertedDevice]" "''Chrome:90''" invertedDevice
             zeroCounters 100, OF h1 h2]
  obtain s' where s: "tallyEntry [''Chrome:90'' \<mapsto> invertedDevice] zeroCounters (''Chrome:90'', 100) = Inr s'"
    and p: "cnt_protocols s' = cnt_protocols zeroCounters"
    and t: "cnt_total s' = cnt_total zeroCounters + 100"
    and ci: "\<forall>cid. cnt_ciphers s' cid =
              (if cid \<in> set (SuiteIds invertedDevice)
               then Some ((case cnt_ciphers zeroCounters cid of Some n \<Rightarrow> n | None \<Rightarrow> 0) +
                          of_nat (count_list (SuiteIds invertedDevice) cid) * 100)
               else cnt_ciphers zeroCounters cid)"
    and cu: "\<forall>cid. cnt_curves s' cid =
              (if cid \<in> set (EllipticCurves invertedDevice)
               then Some ((case cnt_curves zeroCounters cid of Some n \<Rightarrow> n | None \<Rightarrow> 0) +
                          of_nat (count_list (EllipticCurves invertedDevice) cid) * 100)
               else cnt_curves zeroCounters cid)"
    by blast
  have "cnt_ciphers s' = [4865 \<mapsto> 100]"
    using ci by (auto simp: fun_eq_iff invertedDevice_def chrome90Device_def zeroCounters_def)
  moreover have "cnt_curves s' = [29 \<mapsto> 100]"
    using cu by (auto simp: fun_eq_iff invertedDevice_def chrome90Device_def zeroCounters_def)
  moreover have "cnt_protocols s' = Map.empty" "cnt_total s' = 100"
    using p t by (simp_all add: zeroCounters_def)
  ultimately have "s' = \<lparr>cnt_protocols = Map.empty, cnt_ciphers = [4865 \<mapsto> 100],
          cnt_curves = [29 \<mapsto> 100], cnt_total = 100\<rparr>"
    by simp
  with s h1 h2 show ?thesis by simp
qed

section \<open>Properties of the report builder\<close>

lemma less_elem_iff: "less_elem a b \<longleftrightarrow> sint (kv_v b) < sint (kv_v a)"
  by (simp add: less_elem_def kv_Less_def)

lemma mset_sink: "mset (sink x ys) = add_mset x (mset ys)"
  by (induction ys) auto

lemma set_sink: "set (sink x ys) = insert x (set ys)"
  by (induction ys) auto

lemma sorted_sink:
  "sorted_wrt (\<lambda>a b. \<not> less_elem a b) ys \<Longrightarrow> sorted_wrt (\<lambda>a b. \<not> less_elem a b) (sink x ys)"
  by (induction ys) (auto simp: set_sink less_elem_iff)

lemma foldl_sink_mset: "mset (foldl (\<lambda>acc x. sink x acc) ys xs) = mset xs + mset ys"
  by (induction xs arbitrary: ys) (auto simp: mset_sink)

lemma foldl_sink_sorted:
  "sorted_wrt (\<lambda>a b. \<not> less_elem a b) ys \<Longrightarrow>
   sorted_wrt (\<lambda>a b. \<not> less_elem a b) (foldl (\<lambda>acc x. sink x acc) ys xs)"
  by (induction xs arbitrary: ys) (auto simp: sorted_sink)

lemma insertionSort_contract: "sortContract insertionSort xs"
  using foldl_sink_sorted [of "[]" xs]
  by (simp add: sortContract_def insertionSort_def foldl_sink_mset sorted_wrt_rev)

lemma rangeOf_rangeIn:
  assumes "distinct ks" and "dom mp \<subseteq> set ks"
  shows "rangeOf mp (rangeIn ks mp)"
proof -
  have fst_eq: "map fst (rangeIn ks mp) = filter (\<lambda>k. mp k \<noteq> None) ks" for ks
    by (induction ks) (auto simp: rangeIn_def split: option.splits)
  have mo: "map_of (rangeIn ks mp) k = (if k \<in> set ks then mp k else None)" for ks k
    by (induction ks) (auto simp: rangeIn_def split: option.splits)
  have "map_of (rangeIn ks mp) = mp"
  proof
    fix k
    show "map_of (rangeIn ks mp) k = mp k"
      using assms(2) by (cases "mp k") (auto simp: mo)
  qed
  moreover have "distinct (map fst (rangeIn ks mp))"
    using assms(1) by (simp add: fst_eq)
  ultimately show ?thesis by (simp add: rangeOf_def)
qed

lemma admissible_example:
  assumes "sortSort rt = insertionSort" and "rangeCounts rt = rangeIn ks"
    and "distinct ks" and "dom mp \<subseteq> set ks"
  shows "admissible rt mp"
  using assms rangeOf_rangeIn [of ks mp] insertionSort_contract
  by (simp add: admissible_def)

lemma foldl_append_entries:
  "foldl (\<lambda>data (k, v). data @ [\<lparr>kv_k = k, kv_v = v\<rparr>]) acc kvs =
   acc @ map (\<lambda>p. \<lparr>kv_k = fst p, kv_v = snd p\<rparr>) kvs"
  by (induction kvs arbitrary: acc) (auto simp: case_prod_beta)

lemma sortedEntries_eq:
  "sortedEntries rt mp =
   sortSort rt (map (\<lambda>p. \<lparr>kv_k = fst p, kv_v = snd p\<rparr>) (rangeCounts rt mp))"
  by (simp add: sortedEntries_def foldl_append_entries)

lemma TLSStats_sort_fields:
  "protocols (TLSStats_sort rt stats) = sortedEntries rt (TLSStats.Protocols stats)"
  "ciphers (TLSStats_sort rt stats) = sortedEntries rt (TLSStats.Ciphers stats)"
  "curves (TLSStats_sort rt stats) = sortedEntries rt (TLSStats.Curves stats)"
  "Total (TLSStats_sort rt stats) = Total stats"
  "devices (TLSStats_sort rt stats) = devices stats"
  by (simp_all add: TLSStats_sort_def Let_def)

lemma toJSONStruct_Inr:
  assumes "toJSONStruct rt gen stats start end' = Inr st"
  shows "TLSStatistics.Protocols st =
           map (\<lambda>pp. \<lparr>ID = kv_k pp, Percent = float_quot (kv_v pp) (Total stats),
                       Name = getProtocolName (kv_k pp)\<rparr>)
             (sortedEntries rt (TLSStats.Protocols stats))"
    and "\<exists>ns. TLSStatistics.Ciphers st =
           map (\<lambda>cc. \<lparr>ID = kv_k cc, Percent = float_quot (kv_v cc) (Total stats),
                       Name = getCipherName rt (kv_k cc) ns\<rparr>)
             (sortedEntries rt (TLSStats.Ciphers stats))"
    and "TLSStatistics.Curves st =
           map (\<lambda>cc. \<lparr>ID = kv_k cc, Percent = float_quot (kv_v cc) (Total stats),
                       Name = getCurveName rt (kv_k cc)\<rparr>)
             (sortedEntries rt (TLSStats.Curves stats))"
  using assms
  by (auto simp: toJSONStruct_def Let_def TLSStats_sort_fields split: sum.splits)

text \<open>What an admissible run makes of a map of counts.\<close>

lemma admissible_entries:
  assumes "admissible rt mp"
  shows "distinct (map kv_k (sortedEntries rt mp))"
    and "set (map kv_k (sortedEntries rt mp)) = dom mp"
    and "\<forall>e \<in> set (sortedEntries rt mp). mp (kv_k e) = Some (kv_v e)"
    and "sorted_wrt (\<lambda>a b. sint (kv_v b) \<le> sint (kv_v a)) (sortedEntries rt mp)"
    and "mset (sortedEntries rt mp) =
           mset (map (\<lambda>p. \<lparr>kv_k = fst p, kv_v = snd p\<rparr>) (rangeCounts rt mp))"
proof -
  let ?kvs = "rangeCounts rt mp"
  let ?mk = "\<lambda>p. \<lparr>kv_k = fst p, kv_v = snd p\<rparr>"
  let ?es = "sortedEntries rt mp"
  from assms have d: "distinct (map fst ?kvs)" and m: "map_of ?kvs = mp"
    and ms: "mset ?es = mset (map ?mk ?kvs)"
    and so: "sorted_wrt (\<lambda>a b. \<not> less_elem b a) ?es"
    by (simp_all add: admissible_def rangeOf_def sortContract_def sortedEntries_eq)
  show "mset ?es = mset (map ?mk ?kvs)" by (rule ms)
  have "image_mset kv_k (mset ?es) = image_mset kv_k (mset (map ?mk ?kvs))"
    by (simp only: ms)
  then have mk: "mset (map kv_k ?es) = mset (map fst ?kvs)"
    by (simp add: multiset.map_comp comp_def)
  show "distinct (map kv_k ?es)"
    using mset_eq_imp_distinct_iff [OF mk] d by simp
  have "set (map kv_k ?es) = set (map fst ?kvs)"
    using mk by (rule mset_eq_setD)
  also have "\<dots> = dom (map_of ?kvs)"
    by (simp add: dom_map_of_conv_image_fst)
  also have "\<dots> = dom mp"
    by (simp only: m)
  finally show "set (map kv_k ?es) = dom mp" .
  have se: "set ?es = set (map ?mk ?kvs)"
    using ms by (rule mset_eq_setD)
  show "\<forall>e \<in> set ?es. mp (kv_k e) = Some (kv_v e)"
  proof
    fix e assume "e \<in> set ?es"
    with se obtain p where p: "p \<in> set ?kvs" and e: "e = ?mk p" by auto
    from p have "(fst p, snd p) \<in> set ?kvs" by simp
    with d have "map_of ?kvs (fst p) = Some (snd p)" by (rule map_of_is_SomeI)
    then show "mp (kv_k e) = Some (kv_v e)" by (simp add: e m)
  qed
  from so show "sorted_wrt (\<lambda>a b. sint (kv_v b) \<le> sint (kv_v a)) ?es"
    by (simp add: less_elem_iff not_less)
qed

lemma descendingCounts_entries:
  assumes "admissible rt mp"
    and "\<And>pp. ID (f pp) = kv_k pp"
  shows "descendingCounts mp (map f (sortedEntries rt mp))"
proof -
  note a = admissible_entries [OF assms(1)]
  have ids: "map ID (map f (sortedEntries rt mp)) = map kv_k (sortedEntries rt mp)"
    by (simp add: assms(2))
  have c: "countOf mp (f e) = sint (kv_v e)" if "e \<in> set (sortedEntries rt mp)" for e
    using a(3) that by (simp add: countOf_def assms(2))
  have "sorted_wrt (\<lambda>a b. countOf mp (f b) \<le> countOf mp (f a)) (sortedEntries rt mp)"
    using a(4) by (rule sorted_wrt_mono_rel [rotated]) (simp add: c)
  then have "sorted_wrt (\<lambda>a b. countOf mp b \<le> countOf mp a) (map f (sortedEntries rt mp))"
    by (simp add: sorted_wrt_map)
  then show ?thesis
    unfolding descendingCounts_def ids using a(1,2) by simp
qed

text \<open>
  C3, amended. Whatever the order in which the run visits the maps of counts, and
  whatever sort the library runs within its contract, each of the three sequences of
  a report has one entry for each key of its map, and the counts of the entries
  descend along the sequence. Nothing is said of the order of two entries of equal
  count.
\<close>

theorem entries_descending:
  assumes "admissible rt (TLSStats.Protocols stats)"
    and "admissible rt (TLSStats.Ciphers stats)"
    and "admissible rt (TLSStats.Curves stats)"
    and "toJSONStruct rt gen stats start end' = Inr st"
  shows "descendingCounts (TLSStats.Protocols stats) (TLSStatistics.Protocols st) \<and>
         descendingCounts (TLSStats.Ciphers stats) (TLSStatistics.Ciphers st) \<and>
         descendingCounts (TLSStats.Curves stats) (TLSStatistics.Curves st)"
proof -
  note j = toJSONStruct_Inr [OF assms(4)]
  from j(2) obtain ns where
    c: "TLSStatistics.Ciphers st =
           map (\<lambda>cc. \<lparr>ID = kv_k cc, Percent = float_quot (kv_v cc) (Total stats),
                       Name = getCipherName rt (kv_k cc) ns\<rparr>)
             (sortedEntries rt (TLSStats.Ciphers stats))"
    by blast
  have "descendingCounts (TLSStats.Protocols stats) (TLSStatistics.Protocols st)"
    unfolding j(1) using assms(1) by (rule descendingCounts_entries) simp
  moreover have "descendingCounts (TLSStats.Ciphers stats) (TLSStatistics.Ciphers st)"
    unfolding c using assms(2) by (rule descendingCounts_entries) simp
  moreover have "descendingCounts (TLSStats.Curves stats) (TLSStatistics.Curves st)"
    unfolding j(3) using assms(3) by (rule descendingCounts_entries) simp
  ultimately show ?thesis by simp
qed

lemma sortedEntries_tied:
  "sortedEntries tiedRuntime [769 \<mapsto> 100, 770 \<mapsto> 100] =
     [\<lparr>kv_k = 770, kv_v = 100\<rparr>, \<lparr>kv_k = 769, kv_v = 100\<rparr>]"
  by (simp add: sortedEntries_def tiedRuntime_def exampleRuntime_def rangeIn_def
      insertionSort_def less_elem_def kv_Less_def)

lemma toJSONStruct_tied:
  "toJSONStruct tiedRuntime 0 tiedStats 0 0 =
     Inr \<lparr>GenerationDate = 0, StartDate = 0, EndDate = 0,
          Protocols = [\<lparr>ID = 770, Percent = Finite 1, Name = ''TLS v1.1''\<rparr>,
                       \<lparr>ID = 769, Percent = Finite 1, Name = ''TLS v1.0''\<rparr>],
          Ciphers = [\<lparr>ID = 4865, Percent = Finite 1, Name = ''TLS_AES_128_GCM_SHA256''\<rparr>],
          Curves = [\<lparr>ID = 29, Percent = Finite 1, Name = ''Nonstandard Curve''\<rparr>]\<rparr>"
  by (simp add: toJSONStruct_def TLSStats_sort_def sortedEntries_def tiedStats_def
      scenarioStats_def tiedRuntime_def exampleRuntime_def rangeIn_def insertionSort_def
      less_elem_def kv_Less_def float_quot_def getProtocolName_def getCipherName_def
      getCurveName_def cipherMaps_def cipherMapsEntry_def chrome90Device_def
      enumerate_eq_zip upt_rec Let_def)








lemma toJSONStruct_mixed:
  "toJSONStruct exampleRuntime 0 mixedStats 0 0 =
     Inr \<lparr>GenerationDate = 0, StartDate = 0, EndDate = 0,
          Protocols = [\<lparr>ID = 770, Percent = Finite 1, Name = ''TLS v1.1''\<rparr>,
                       \<lparr>ID = 771, Percent = Finite 1, Name = ''TLS v1.2''\<rparr>,
                       \<lparr>ID = 772, Percent = Finite (7 / 10), Name = ''TLS v1.3''\<rparr>,
                       \<lparr>ID = 769, Percent = Finite (3 / 10), Name = ''TLS v1.0''\<rparr>],
          Ciphers = [\<lparr>ID = 4865, Percent = Finite 1, Name = ''TLS_AES_128_GCM_SHA256''\<rparr>],
          Curves = [\<lparr>ID = 29, Percent = Finite 1, Name = ''Nonstandard Curve''\<rparr>]\<rparr>"
  by (simp add: toJSONStruct_def TLSStats_sort_def sortedEntries_def mixedStats_def
      scenarioStats_def exampleRuntime_def rangeIn_def insertionSort_def
      less_elem_def kv_Less_def float_quot_def getProtocolName_def getCipherName_def
      getCurveName_def cipherMaps_def cipherMapsEntry_def chrome90Device_def
      enumerate_eq_zip upt_rec Let_def)

lemma admissible_exampleRuntime:
  "dom mp \<subseteq> {29, 769, 770, 771, 772, 4865} \<Longrightarrow> admissible exampleRuntime mp"
  by (rule admissible_example [where ks = "[29, 769, 770, 771, 772, 4865]"])
     (simp_all add: exampleRuntime_def)

lemma admissible_tiedRuntime:
  "dom mp \<subseteq> {770, 769, 4865, 29} \<Longrightarrow> admissible tiedRuntime mp"
  by (rule admissible_example [where ks = "[770, 769, 4865, 29]"])
     (simp_all add: tiedRuntime_def exampleRuntime_def)

text \<open>
  C3 as stated fails. On the protocol counts 769: 100 and 770: 100, when the run
  visits the key 770 first, the two-element insertion sort of \<open>sort.Sort\<close> swaps
  nothing, since neither count is larger than the other, and the report lists 770
  before 769: two entries of equal count in descending order of identifier.
\<close>

theorem tie_break_counterexample:
  "admissible tiedRuntime (TLSStats.Protocols tiedStats) \<and>
   map_sum id (\<lambda>st. map ID (TLSStatistics.Protocols st))
     (toJSONStruct tiedRuntime 0 tiedStats 0 0) = Inr [770, 769] \<and>
   map_sum id (\<lambda>st. map (countOf (TLSStats.Protocols tiedStats)) (TLSStatistics.Protocols st))
     (toJSONStruct tiedRuntime 0 tiedStats 0 0) = Inr [100, 100] \<and>
   map_sum id (\<lambda>st. tieBrokenOrder (TLSStats.Protocols tiedStats) (TLSStatistics.Protocols st))
     (toJSONStruct tiedRuntime 0 tiedStats 0 0) = Inr False"
proof -
  have "admissible tiedRuntime (TLSStats.Protocols tiedStats)"
    by (rule admissible_tiedRuntime) (simp add: tiedStats_def)
  then show ?thesis
    by (simp add: toJSONStruct_tied) (simp add: tieBrokenOrder_def countOf_def tiedStats_def)
qed

theorem entries_descending_witness:
  "admissible exampleRuntime (TLSStats.Protocols mixedStats) \<and>
   admissible exampleRuntime (TLSStats.Ciphers mixedStats) \<and>
   admissible exampleRuntime (TLSStats.Curves mixedStats) \<and>
   map_sum id (\<lambda>st. map ID (TLSStatistics.Protocols st))
     (toJSONStruct exampleRuntime 0 mixedStats 0 0) = Inr [770, 771, 772, 769] \<and>
   descendingCounts (TLSStats.Protocols mixedStats)
     [\<lparr>ID = 770, Percent = Finite 1, Name = ''TLS v1.1''\<rparr>,
      \<lparr>ID = 771, Percent = Finite 1, Name = ''TLS v1.2''\<rparr>,
      \<lparr>ID = 772, Percent = Finite (7 / 10), Name = ''TLS v1.3''\<rparr>,
      \<lparr>ID = 769, Percent = Finite (3 / 10), Name = ''TLS v1.0''\<rparr>]"
proof -
  have a: "admissible exampleRuntime (TLSStats.Protocols mixedStats)"
    "admissible exampleRuntime (TLSStats.Ciphers mixedStats)"
    "admissible exampleRuntime (TLSStats.Curves mixedStats)"
    by (rule admissible_exampleRuntime, simp add: mixedStats_def scenarioStats_def)+
  from entries_descending [OF a toJSONStruct_mixed] a show ?thesis
    by (simp add: toJSONStruct_mixed)
qed


lemma countSum_mixed: "countSum (TLSStats.Protocols mixedStats) = 300"
  by (simp add: countSum_def mixedStats_def)


section \<open>Properties of the cache manager\<close>





lemma analyseAndWriteToFile_written:
  assumes "analyseAndWriteToFile sys w = Inr ((st, None), w')"
  shows "\<exists>data. marshalIndent sys st = Inr data \<and>
           w' = w\<lparr>files := (files w)(jsonStatsOut sys \<mapsto> Readable data)\<rparr>"
  using assms
  by (auto simp: analyseAndWriteToFile_def split: sum.splits prod.splits)


text \<open>
  C2, amended. Without forced refresh, on a cached artifact that can be read and not
  parsed, \<open>GetStats\<close> computes nothing anew: it returns and leaves the file system
  as it is, nothing downloaded, archived or written.
\<close>

theorem corrupt_cache_not_recomputed:
  assumes "files w (jsonStatsOut sys) = Some (Readable data)"
    and "unmarshalStatistics sys data zeroStatistics = (Some err, partial)"
  shows "\<exists>r. GetStats sys w False = Inr (r, w)"
  using assms by (simp add: GetStats_def)

lemma example_paths:
  "jsonStatsOut exampleSys = ''h/stats/tls-stats-current.json''"
  "browserStatsData exampleSys = ''h/data/browser-stats-20000.tsv''"
  "deviceCiphers exampleSys = ''h/data/device-ciphers-20000.json''"
  "statsHome exampleSys = ''h/stats''"
  by (simp_all add: jsonStatsOut_def browserStatsData_def deviceCiphers_def statsHome_def
      dataHome_def today_def exampleSys_def)

lemma example_urls: "BrowserStats \<noteq> DeviceDetails"
  by (simp add: BrowserStats_def DeviceDetails_def)

lemma example_select:
  "runtime exampleSys = exampleRuntime" "now exampleSys = 20000"
  "midnightUTC exampleSys t = t" "lastYearStart exampleSys t = t - 730"
  "AddDate exampleSys t y m d = t + 365 * y + 30 * m + d"
  "marshalIndent exampleSys st = Inr ''new report''"
  "unmarshalDevices exampleSys ''devices'' = [chrome90Device]"
  "httpGet exampleSys DeviceDetails = Some ''devices''"
  "unmarshalStatistics exampleSys ''old report'' st = (None, st\<lparr>GenerationDate := 19000\<rparr>)"
  "unmarshalStatistics exampleSys ''fresh report'' st = (None, st\<lparr>GenerationDate := 19990\<rparr>)"
  "unmarshalStatistics exampleSys ''not json'' st = (Some UnmarshalError, st)"
  "Format exampleSys 19000 = ''19000''"
  by (simp_all add: exampleSys_def example_urls [symmetric])

lemma example_httpGet_tsv: "httpGet exampleSys BrowserStats = Some exampleTsv"
  by (simp add: exampleSys_def exampleTsv_def)

lemma example_select2:
  "scanLines exampleSys s = strings_Split s (CHR 0x0A)"
  "ParseInt exampleSys ''100'' = Some 100"
  "time_Parse exampleSys ''19990'' = Some 19990"
  by (simp_all add: exampleSys_def)

lemma example_split_lines: "strings_Split exampleTsv (CHR 0x0A) = [exampleTsv]"
  by (simp add: exampleTsv_def)

lemma example_split_tabs:
  "strings_Split exampleTsv (CHR 0x09) = [''19990'', ''W'', ''7'', ''Chrome'', ''90'', ''100'']"
  by (simp add: exampleTsv_def)

lemma example_line:
  "loadBrowserLine exampleSys 19270 [] exampleTsv =
     Inr [\<lparr>Date = 19990, BrowserFamily = ''Chrome'', BrowserMajorVersion = ''90'',
           OSFamily = ''W'', OSMajorVersion = ''7'', Count = 100\<rparr>]"
  by (simp add: loadBrowserLine_def example_split_tabs example_select2)

lemma example_load:
  "files w ''h/data/browser-stats-20000.tsv'' = Some (Readable exampleTsv) \<Longrightarrow>
   loadBrowserOSStats exampleSys w ''h/data/browser-stats-20000.tsv'' =
     Inr [\<lparr>Date = 19990, BrowserFamily = ''Chrome'', BrowserMajorVersion = ''90'',
           OSFamily = ''W'', OSMajorVersion = ''7'', Count = 100\<rparr>]"
  by (simp add: loadBrowserOSStats_def example_select example_select2 example_split_lines
      example_line)

lemma analyseStats_body_chrome90:
  assumes "BrowserFamily b = ''Chrome''" and "BrowserMajorVersion b = ''90''"
    and "Count b = 100"
  shows "analyseStats_body exampleRuntime [b] [chrome90Device] = Inr (scenarioStats, Date b, Date b)"
proof -
  have key: "browserKey noVersions b = ''Chrome:90''"
    using assms(1,2) by (rule browserKey_chrome90) (simp add: noVersions_def)
  have bm: "browserMap (joinLoop noVersions [b] [chrome90Device]) = [''Chrome:90'' \<mapsto> 100]"
    using assms(3)
    by (simp add: joinLoop_def joinStep_def deviceKeySet_def key deviceKey_def
        sprintf_colon_def chrome90Device_def)
  have "getTLSStats [(''Chrome:90'', 100)] [chrome90Device] = Inr scenarioStats"
    unfolding scenarioStats_def
    by (rule getTLSStats_scenario_A) (simp_all add: chrome90Device_def)
  moreover have "getDateRange [b] = (Date b, Date b)"
    by (simp add: getDateRange_def Let_def)
  ultimately show ?thesis
    by (simp add: analyseStats_body_def exampleRuntime_def bm rangeIn_def)
qed

lemma toJSONStruct_scenario_gen:
  "toJSONStruct exampleRuntime gen scenarioStats start end' =
     Inr (exampleReport\<lparr>GenerationDate := gen, StartDate := start, EndDate := end'\<rparr>)"
  by (simp add: toJSONStruct_def TLSStats_sort_def sortedEntries_def
      scenarioStats_def exampleRuntime_def rangeIn_def insertionSort_def
      less_elem_def kv_Less_def float_quot_def getProtocolName_def getCipherName_def
      getCurveName_def cipherMaps_def cipherMapsEntry_def chrome90Device_def
      enumerate_eq_zip upt_rec Let_def exampleReport_def)

lemma example_DownloadData:
  assumes "files w ''h/data/browser-stats-20000.tsv'' = None"
    and "files w ''h/data/device-ciphers-20000.json'' = None"
  shows "DownloadData exampleSys w False =
     (None, w\<lparr>files := (files w)(''h/data/browser-stats-20000.tsv'' \<mapsto> Readable exampleTsv,
                               ''h/data/device-ciphers-20000.json'' \<mapsto> Readable ''devices'')\<rparr>)"
  using assms
  by (simp add: DownloadData_def download_def example_paths example_httpGet_tsv example_select)

lemma example_analyseAndWriteToFile:
  assumes "files w ''h/data/browser-stats-20000.tsv'' = Some (Readable exampleTsv)"
    and "files w ''h/data/device-ciphers-20000.json'' = Some (Readable ''devices'')"
  shows "analyseAndWriteToFile exampleSys w =
     Inr ((exampleReport, None),
          w\<lparr>files := (files w)(''h/stats/tls-stats-current.json'' \<mapsto> Readable ''new report'')\<rparr>)"
proof -
  have "analyseStats exampleSys w = Inr (scenarioStats, 19990, 19990)"
    using assms
    by (simp add: analyseStats_def example_paths example_load loadDeviceDetails_def
        example_select analyseStats_body_chrome90)
  then show ?thesis
    by (simp add: analyseAndWriteToFile_def example_select toJSONStruct_scenario_gen
        example_paths exampleReport_def)
qed

lemma GetStats_emptyWorld:
  "GetStats exampleSys emptyWorld False =
     Inr ((exampleReport, None),
          \<lparr>files = [''h/data/browser-stats-20000.tsv'' \<mapsto> Readable exampleTsv,
                    ''h/data/device-ciphers-20000.json'' \<mapsto> Readable ''devices'',
                    ''h/stats/tls-stats-current.json'' \<mapsto> Readable ''new report'']\<rparr>)"
proof -
  have d: "DownloadData exampleSys emptyWorld False =
     (None, \<lparr>files = [''h/data/browser-stats-20000.tsv'' \<mapsto> Readable exampleTsv,
                      ''h/data/device-ciphers-20000.json'' \<mapsto> Readable ''devices'']\<rparr>)"
    using example_DownloadData [of emptyWorld] by (simp add: emptyWorld_def)
  show ?thesis
    by (simp add: GetStats_def example_paths d)
       (simp add: emptyWorld_def example_analyseAndWriteToFile)
qed

lemma GetStats_corrupt:
  "GetStats exampleSys (worldWith ''not json'') False =
     Inr ((zeroStatistics, None), worldWith ''not json'')"
  by (simp add: GetStats_def example_paths worldWith_def example_select)

lemma GetStats_fresh:
  "GetStats exampleSys (worldWith ''fresh report'') False =
     Inr ((zeroStatistics\<lparr>GenerationDate := 19990\<rparr>, None), worldWith ''fresh report'')"
  by (simp add: GetStats_def example_paths worldWith_def example_select)

lemma example_path_Join: "path_Join exampleSys a b = a @ ''/'' @ b"
  by (simp add: exampleSys_def)

lemma GetStats_stale:
  "GetStats exampleSys (worldWith ''old report'') False =
     Inr ((exampleReport, None),
          \<lparr>files = [''h/stats/tls-stats-19000.json'' \<mapsto> Readable ''old report'',
                    ''h/data/browser-stats-20000.tsv'' \<mapsto> Readable exampleTsv,
                    ''h/data/device-ciphers-20000.json'' \<mapsto> Readable ''devices'',
                    ''h/stats/tls-stats-current.json'' \<mapsto> Readable ''new report'']\<rparr>)"
proof -
  have r: "renameCurrentStats exampleSys (worldWith ''old report'') =
      \<lparr>files = [''h/stats/tls-stats-19000.json'' \<mapsto> Readable ''old report'']\<rparr>"
    by (simp add: renameCurrentStats_def example_paths worldWith_def example_select
        os_Rename_def jsonStatsOutBackup_def zeroStatistics_def example_path_Join fun_eq_iff)
  have d: "DownloadData exampleSys \<lparr>files = [''h/stats/tls-stats-19000.json'' \<mapsto> Readable ''old report'']\<rparr> False =
     (None, \<lparr>files = [''h/stats/tls-stats-19000.json'' \<mapsto> Readable ''old report'',
                      ''h/data/browser-stats-20000.tsv'' \<mapsto> Readable exampleTsv,
                      ''h/data/device-ciphers-20000.json'' \<mapsto> Readable ''devices'']\<rparr>)"
    using example_DownloadData [of "\<lparr>files = [''h/stats/tls-stats-19000.json'' \<mapsto> Readable ''old report'']\<rparr>"]
    by simp
  have g: "GetStats exampleSys (worldWith ''old report'') False =
      analyseAndWriteToFile exampleSys
        (snd (DownloadData exampleSys (renameCurrentStats exampleSys (worldWith ''old report'')) False))"
    by (simp add: GetStats_def example_paths worldWith_def example_select zeroStatistics_def)
  show ?thesis
    unfolding g r d by (simp add: example_analyseAndWriteToFile)
qed


text \<open>
  C2 as stated fails. On an artifact that does not parse, \<open>GetStats\<close> returns the
  empty report and the artifact stays in place, while on the same system with no
  artifact it downloads the data, returns the computed report and writes it.
\<close>

theorem corrupt_cache_recompute_counterexample:
  "files (worldWith ''not json'') (jsonStatsOut exampleSys) = Some (Readable ''not json'') \<and>
   unmarshalStatistics exampleSys ''not json'' zeroStatistics =
     (Some UnmarshalError, zeroStatistics) \<and>
   GetStats exampleSys (worldWith ''not json'') False =
     Inr ((zeroStatistics, None), worldWith ''not json'') \<and>
   GetStats exampleSys emptyWorld False =
     Inr ((exampleReport, None),
          \<lparr>files = [''h/data/browser-stats-20000.tsv'' \<mapsto> Readable exampleTsv,
                    ''h/data/device-ciphers-20000.json'' \<mapsto> Readable ''devices'',
                    ''h/stats/tls-stats-current.json'' \<mapsto> Readable ''new report'']\<rparr>) \<and>
   exampleReport \<noteq> zeroStatistics"
proof -
  have "files (worldWith ''not json'') (jsonStatsOut exampleSys) = Some (Readable ''not json'')"
    by (simp add: worldWith_def example_paths)
  moreover have "unmarshalStatistics exampleSys ''not json'' zeroStatistics =
     (Some UnmarshalError, zeroStatistics)"
    by (simp add: example_select)
  moreover have "exampleReport \<noteq> zeroStatistics"
    by (simp add: exampleReport_def zeroStatistics_def)
  ultimately show ?thesis
    using GetStats_corrupt GetStats_emptyWorld by (intro conjI)
qed

theorem corrupt_cache_not_recomputed_witness:
  "files (worldWith ''not json'') (jsonStatsOut exampleSys) = Some (Readable ''not json'') \<and>
   unmarshalStatistics exampleSys ''not json'' zeroStatistics =
     (Some UnmarshalError, zeroStatistics) \<and>
   map_sum id snd (GetStats exampleSys (worldWith ''not json'') False) =
     Inr (worldWith ''not json'')"
proof -
  have h1: "files (worldWith ''not json'') (jsonStatsOut exampleSys) = Some (Readable ''not json'')"
    by (simp add: worldWith_def example_paths)
  have h2: "unmarshalStatistics exampleSys ''not json'' zeroStatistics =
     (Some UnmarshalError, zeroStatistics)"
    by (simp add: example_select)
  from corrupt_cache_not_recomputed [OF h1 h2]
  obtain r where "GetStats exampleSys (worldWith ''not json'') False =
      Inr (r, worldWith ''not json'')"
    by blast
  with h1 h2 show ?thesis by simp
qed

section \<open>Termination of the aggregation\<close>

lemma sint_succ:
  assumes "sint (p :: 64 word) < 2 ^ 63 - 1"
  shows "sint (p + 1) = sint p + 1"
proof -
  have "- (2 ^ 63) \<le> sint p"
    using sint_ge [of p] by simp
  with assms show ?thesis
    by (simp add: sint_word_ariths signed_take_bit_int_eq_self)
qed

lemma protocolLoop_returns:
  assumes "sint hi < 2 ^ 63 - 1"
  shows "\<exists>prots'. protocolLoop p hi c prots = Some prots'"
proof (induction "nat (sint hi + 1 - sint p)" arbitrary: p prots)
  case 0
  then have "sint hi < sint p" by simp
  then show ?case by (simp add: protocolLoop_empty)
next
  case (Suc n)
  then have le: "sint p \<le> sint hi" by simp
  with assms have s: "sint (p + 1) = sint p + 1" by (intro sint_succ) simp
  with Suc.hyps(2) have "n = nat (sint hi + 1 - sint (p + 1))" by simp
  from Suc.hyps(1) [OF this]
  obtain prots' where "protocolLoop (p + 1) hi c (addCount prots p c) = Some prots'"
    by blast
  with le show ?case
    by (subst protocolLoop.simps) simp
qed

lemma deviceMap_in_set_aux:
  "foldl (\<lambda>deviceKeys d. deviceKeys(deviceKey d \<mapsto> d)) mp devs b = Some dev \<Longrightarrow>
   dev \<in> set devs \<or> mp b = Some dev"
proof (induction devs arbitrary: mp)
  case Nil
  then show ?case by simp
next
  case (Cons a devs)
  from Cons.prems have "foldl (\<lambda>deviceKeys d. deviceKeys(deviceKey d \<mapsto> d))
      (mp(deviceKey a \<mapsto> a)) devs b = Some dev"
    by (simp only: foldl_Cons)
  from Cons.IH [OF this] show ?case
    by (auto split: if_splits)
qed

lemma deviceMap_in_set: "deviceMap devs b = Some dev \<Longrightarrow> dev \<in> set devs"
  using deviceMap_in_set_aux [of Map.empty devs b dev] by (simp add: deviceMap_def)

lemma tallyEntry_returns:
  assumes "\<forall>dev \<in> set devs. sint (HighestProtocol dev) < 2 ^ 63 - 1"
  shows "\<exists>s'. tallyEntry (deviceMap devs) s bc = Inr s'"
proof (cases "deviceMap devs (fst bc)")
  case None
  then show ?thesis by (simp add: tallyEntry_def Let_def)
next
  case (Some dev)
  then have "dev \<in> set devs" by (rule deviceMap_in_set)
  with assms have "sint (HighestProtocol dev) < 2 ^ 63 - 1" by blast
  from protocolLoop_returns [OF this]
  obtain prots' where
    "protocolLoop (if 768 < sint (LowestProtocol dev) then LowestProtocol dev else 768)
       (HighestProtocol dev) (snd bc) (cnt_protocols s) = Some prots'"
    by blast
  with Some show ?thesis by (simp add: tallyEntry_def Let_def)
qed

lemma forEach_returns:
  "(\<And>s x. \<exists>s'. body s x = Inr s') \<Longrightarrow> \<exists>s'. forEach body s xs = Inr s'"
proof (induction xs arbitrary: s)
  case Nil
  then show ?case by simp
next
  case (Cons x xs)
  from Cons.prems obtain s1 where "body s x = Inr s1" by blast
  moreover from Cons.IH [OF Cons.prems] obtain s2 where "forEach body s1 xs = Inr s2" by blast
  ultimately show ?case by simp
qed

lemma getTLSStats_returns:
  assumes "\<forall>dev \<in> set devs. sint (HighestProtocol dev) < 2 ^ 63 - 1"
  shows "\<exists>stats. getTLSStats browsers devs = Inr stats"
proof -
  have "\<exists>s'. forEach (tallyEntry (deviceMap devs))
             \<lparr>cnt_protocols = Map.empty, cnt_ciphers = Map.empty, cnt_curves = Map.empty,
              cnt_total = 0\<rparr> browsers = Inr s'"
    by (rule forEach_returns) (rule tallyEntry_returns [OF assms])
  then show ?thesis by (auto simp: getTLSStats_def)
qed

end
